theory Spec2Isabelle
  imports Main "HOL-Library.Sublist" "HOL-Library.AList"
begin

section \<open>Text\<close>

text \<open>
  Python strings are modelled as \<^typ>\<open>string\<close>: a character is a code point below 256.
  The character classes and the case mapping below are Python's on that range.
\<close>

definition code :: "char \<Rightarrow> nat" where
  "code c = of_char c"

text \<open>\<^verbatim>\<open>str.isspace\<close>, which is also the regular expression class \<^verbatim>\<open>\s\<close>.\<close>

definition is_space :: "char \<Rightarrow> bool" where
  "is_space c = ((9 \<le> code c \<and> code c \<le> 13) \<or> (28 \<le> code c \<and> code c \<le> 32)
                 \<or> code c = 133 \<or> code c = 160)"

text \<open>The class \<^verbatim>\<open>\w\<close>: alphanumeric characters and the underscore.\<close>

definition is_word :: "char \<Rightarrow> bool" where
  "is_word c = ((48 \<le> code c \<and> code c \<le> 57) \<or> (65 \<le> code c \<and> code c \<le> 90)
                \<or> (97 \<le> code c \<and> code c \<le> 122) \<or> code c = 95
                \<or> code c \<in> {170, 178, 179, 181, 185, 186, 188, 189, 190}
                \<or> (192 \<le> code c \<and> code c \<le> 214) \<or> (216 \<le> code c \<and> code c \<le> 246)
                \<or> 248 \<le> code c)"

definition lower_char :: "char \<Rightarrow> char" where
  "lower_char c = (if (65 \<le> code c \<and> code c \<le> 90) \<or> (192 \<le> code c \<and> code c \<le> 214)
                      \<or> (216 \<le> code c \<and> code c \<le> 222)
                   then char_of (code c + 32) else c)"

definition lower :: "string \<Rightarrow> string" where
  "lower s = map lower_char s"

text \<open>
  \<^verbatim>\<open>str.upper\<close>. The sharp s becomes two letters; the micro sign and the y with
  diaeresis have their capitals beyond code point 255 and are left as they are.
\<close>

definition upper_char :: "char \<Rightarrow> string" where
  "upper_char c = (if (97 \<le> code c \<and> code c \<le> 122) \<or> (224 \<le> code c \<and> code c \<le> 246)
                      \<or> (248 \<le> code c \<and> code c \<le> 254)
                   then [char_of (code c - 32)]
                   else if code c = 223 then ''SS'' else [c])"

definition upper :: "string \<Rightarrow> string" where
  "upper s = concat (map upper_char s)"

definition startswith :: "string \<Rightarrow> string \<Rightarrow> bool" where
  "startswith s p = prefix p s"

definition endswith :: "string \<Rightarrow> string \<Rightarrow> bool" where
  "endswith s p = suffix p s"

text \<open>\<^verbatim>\<open>needle in haystack\<close> on strings.\<close>

definition contains :: "string \<Rightarrow> string \<Rightarrow> bool" where
  "contains haystack needle = sublist needle haystack"

text \<open>\<^verbatim>\<open>s.lstrip('/')\<close> and \<^verbatim>\<open>s.rstrip('/')\<close>.\<close>

definition lstrip_sep :: "string \<Rightarrow> string" where
  "lstrip_sep s = dropWhile (\<lambda>c. c = CHR ''/'') s"

definition rstrip_sep :: "string \<Rightarrow> string" where
  "rstrip_sep s = rev (dropWhile (\<lambda>c. c = CHR ''/'') (rev s))"

text \<open>\<^verbatim>\<open>s.rfind(c)\<close>: the index of the last occurrence, or -1.\<close>

primrec rfind_aux :: "char \<Rightarrow> string \<Rightarrow> int \<Rightarrow> int \<Rightarrow> int" where
  "rfind_aux c [] i best = best"
| "rfind_aux c (x # xs) i best = rfind_aux c xs (i + 1) (if x = c then i else best)"

definition rfind :: "string \<Rightarrow> char \<Rightarrow> int" where
  "rfind s c = rfind_aux c s 0 (- 1)"

text \<open>\<^verbatim>\<open>s.split('/')\<close>: always at least one component.\<close>

fun split_sep :: "string \<Rightarrow> string list" where
  "split_sep [] = [[]]"
| "split_sep (c # cs) =
     (if c = CHR ''/'' then [] # split_sep cs
      else (case split_sep cs of [] \<Rightarrow> [[c]] | w # ws \<Rightarrow> (c # w) # ws))"

text \<open>\<^verbatim>\<open>'/'.join(comps)\<close>.\<close>

fun sep_join :: "string list \<Rightarrow> string" where
  "sep_join [] = []"
| "sep_join [w] = w"
| "sep_join (w # ws) = w @ ''/'' @ sep_join ws"

section \<open>Paths (posixpath)\<close>

definition os_path_join :: "string \<Rightarrow> string \<Rightarrow> string" where
  "os_path_join a b =
     (if startswith b ''/'' then b
      else if a = [] \<or> endswith a ''/'' then a @ b
      else a @ ''/'' @ b)"

definition os_path_basename :: "string \<Rightarrow> string" where
  "os_path_basename p = drop (nat (rfind p CHR ''/'' + 1)) p"

definition os_path_dirname :: "string \<Rightarrow> string" where
  "os_path_dirname p =
     (let head = take (nat (rfind p CHR ''/'' + 1)) p
      in if head \<noteq> [] \<and> head \<noteq> replicate (length head) CHR ''/'' then rstrip_sep head
         else head)"

text \<open>
  \<^verbatim>\<open>os.path.splitext(p)[1]\<close>: the extension starts at the last dot of the last
  component, unless only dots precede it there.
\<close>

definition splitext_ext :: "string \<Rightarrow> string" where
  "splitext_ext p =
     (let sepIndex = rfind p CHR ''/''; dotIndex = rfind p CHR ''.''
      in if dotIndex > sepIndex
            \<and> list_ex (\<lambda>c. c \<noteq> CHR ''.'')
                 (take (nat (dotIndex - (sepIndex + 1))) (drop (nat (sepIndex + 1)) p))
         then drop (nat dotIndex) p else [])"

text \<open>The component loop of \<^verbatim>\<open>os.path.normpath\<close>.\<close>

fun normpath_comps :: "nat \<Rightarrow> string list \<Rightarrow> string list \<Rightarrow> string list" where
  "normpath_comps initial_slashes [] new_comps = new_comps"
| "normpath_comps initial_slashes (cmp # comps) new_comps =
     (if cmp = [] \<or> cmp = ''.'' then normpath_comps initial_slashes comps new_comps
      else if cmp \<noteq> ''..'' \<or> (initial_slashes = 0 \<and> new_comps = [])
              \<or> (new_comps \<noteq> [] \<and> last new_comps = ''..'')
      then normpath_comps initial_slashes comps (new_comps @ [cmp])
      else if new_comps \<noteq> [] then normpath_comps initial_slashes comps (butlast new_comps)
      else normpath_comps initial_slashes comps new_comps)"

definition os_path_normpath :: "string \<Rightarrow> string" where
  "os_path_normpath p =
     (if p = [] then ''.''
      else let initial_slashes =
                 (if startswith p ''//'' \<and> \<not> startswith p ''///'' then 2
                  else if startswith p ''/'' then 1 else (0::nat));
               path = replicate initial_slashes CHR ''/''
                        @ sep_join (normpath_comps initial_slashes (split_sep p) [])
           in if path = [] then ''.'' else path)"

section \<open>Extensions and languages\<close>

definition get_file_extension :: "string \<Rightarrow> string" where
  "get_file_extension file_path =
     (let ext = splitext_ext file_path in if ext \<noteq> [] then drop 1 (lower ext) else [])"

definition language_map :: "(string \<times> string) list" where
  "language_map =
     [(''py'', ''Python''), (''js'', ''JavaScript''), (''jsx'', ''JavaScript (React)''),
      (''ts'', ''TypeScript''), (''tsx'', ''TypeScript (React)''), (''html'', ''HTML''),
      (''css'', ''CSS''), (''json'', ''JSON''), (''md'', ''Markdown''), (''yml'', ''YAML''),
      (''yaml'', ''YAML''), (''txt'', ''Text'')]"

definition get_language :: "string \<Rightarrow> string" where
  "get_language file_path =
     (let ext = get_file_extension file_path
      in case map_of language_map ext of
           Some l \<Rightarrow> l
         | None \<Rightarrow> if ext \<noteq> [] then upper ext else ''Unknown'')"

section \<open>Regular expressions\<close>

text \<open>
  The five patterns of \<^verbatim>\<open>extract_imports\<close> are sequences of quantified character
  classes with one capturing group that matters. \<open>rmatch\<close> is the backtracking matcher
  of \<^verbatim>\<open>re\<close> on such sequences: a greedy quantifier tries the longest run first, a
  lazy one the shortest, and the first alternative under which the rest of the pattern
  matches wins.
\<close>

datatype cls =
    Chr char      \<comment> \<open>a literal character\<close>
  | Dot           \<comment> \<open>\<^verbatim>\<open>.\<close>: anything but a newline\<close>
  | Space         \<comment> \<open>\<^verbatim>\<open>\s\<close>\<close>
  | WordOrDot     \<comment> \<open>\<^verbatim>\<open>[\w\.]\<close>\<close>
  | Quote         \<comment> \<open>\<^verbatim>\<open>[\'"]\<close>\<close>

fun cls_match :: "cls \<Rightarrow> char \<Rightarrow> bool" where
  "cls_match (Chr a) c = (c = a)"
| "cls_match Dot c = (c \<noteq> CHR 0x0A)"
| "cls_match Space c = is_space c"
| "cls_match WordOrDot c = (is_word c \<or> c = CHR ''.'')"
| "cls_match Quote c = (c = CHR 0x27 \<or> c = CHR 0x22)"

datatype item =
    One cls        \<comment> \<open>\<^verbatim>\<open>x\<close>\<close>
  | Plus cls       \<comment> \<open>\<^verbatim>\<open>x+\<close>\<close>
  | Star cls       \<comment> \<open>\<^verbatim>\<open>x*\<close>\<close>
  | LazyStar cls   \<comment> \<open>\<^verbatim>\<open>x*?\<close>\<close>
  | Opt cls        \<comment> \<open>\<^verbatim>\<open>x?\<close>\<close>
  | GroupOpen      \<comment> \<open>\<^verbatim>\<open>(\<close> of group 1\<close>
  | GroupClose     \<comment> \<open>\<^verbatim>\<open>)\<close> of group 1\<close>

text \<open>
  \<open>rmatch re s g cap\<close> matches \<open>re\<close> at the start of \<open>s\<close>; \<open>g\<close> is the input that
  was left when group 1 opened and \<open>cap\<close> the text of group 1. The result is the
  captured text and the input left after the match.
\<close>

fun rmatch :: "item list \<Rightarrow> string \<Rightarrow> string \<Rightarrow> string \<Rightarrow> (string \<times> string) option" where
  "rmatch [] s g cap = Some (cap, s)"
| "rmatch (One c # re) [] g cap = None"
| "rmatch (One c # re) (x # xs) g cap = (if cls_match c x then rmatch re xs g cap else None)"
| "rmatch (Plus c # re) [] g cap = None"
| "rmatch (Plus c # re) (x # xs) g cap =
     (if cls_match c x then rmatch (Star c # re) xs g cap else None)"
| "rmatch (Star c # re) [] g cap = rmatch re [] g cap"
| "rmatch (Star c # re) (x # xs) g cap =
     (if cls_match c x
      then (case rmatch (Star c # re) xs g cap of
              Some r \<Rightarrow> Some r
            | None \<Rightarrow> rmatch re (x # xs) g cap)
      else rmatch re (x # xs) g cap)"
| "rmatch (LazyStar c # re) [] g cap = rmatch re [] g cap"
| "rmatch (LazyStar c # re) (x # xs) g cap =
     (case rmatch re (x # xs) g cap of
        Some r \<Rightarrow> Some r
      | None \<Rightarrow> if cls_match c x then rmatch (LazyStar c # re) xs g cap else None)"
| "rmatch (Opt c # re) [] g cap = rmatch re [] g cap"
| "rmatch (Opt c # re) (x # xs) g cap =
     (if cls_match c x
      then (case rmatch re xs g cap of
              Some r \<Rightarrow> Some r
            | None \<Rightarrow> rmatch re (x # xs) g cap)
      else rmatch re (x # xs) g cap)"
| "rmatch (GroupOpen # re) s g cap = rmatch re s s cap"
| "rmatch (GroupClose # re) s g cap = rmatch re s g (take (length g - length s) g)"

text \<open>
  \<^verbatim>\<open>re.findall\<close>, returning group 1 of every match: the leftmost match from the
  current position, then on from where it ended. All five patterns start with a literal,
  so a match is never empty; after an empty match the search would move on by one
  character.
\<close>

function findall :: "item list \<Rightarrow> string \<Rightarrow> string list" where
  "findall re [] = (case rmatch re [] [] [] of Some (cap, rest) \<Rightarrow> [cap] | None \<Rightarrow> [])"
| "findall re (x # xs) =
     (case rmatch re (x # xs) (x # xs) [] of
        Some (cap, rest) \<Rightarrow>
          cap # findall re (if length rest < length (x # xs) then rest else xs)
      | None \<Rightarrow> findall re xs)"
  by pat_completeness auto
termination
  by (relation "measure (\<lambda>(re, s). length s)") auto

definition lit :: "string \<Rightarrow> item list" where
  "lit s = map (\<lambda>c. One (Chr c)) s"

text \<open>\<^verbatim>\<open>import\s+.*?\s+from\s+[\'"](.*?)[\'"](;)?\<close>\<close>

definition js_import_from :: "item list" where
  "js_import_from =
     lit ''import'' @ [Plus Space, LazyStar Dot, Plus Space] @ lit ''from''
       @ [Plus Space, One Quote, GroupOpen, LazyStar Dot, GroupClose, One Quote,
          Opt (Chr CHR '';'')]"

text \<open>\<^verbatim>\<open>import\s+[\'"](.*?)[\'"](;)?\<close>\<close>

definition js_import_direct :: "item list" where
  "js_import_direct =
     lit ''import''
       @ [Plus Space, One Quote, GroupOpen, LazyStar Dot, GroupClose, One Quote,
          Opt (Chr CHR '';'')]"

text \<open>\<^verbatim>\<open>require\s*?\(\s*[\'"](.*?)[\'"](;)?\)\<close>\<close>

definition js_require :: "item list" where
  "js_require =
     lit ''require''
       @ [LazyStar Space, One (Chr CHR ''(''), Star Space, One Quote, GroupOpen,
          LazyStar Dot, GroupClose, One Quote, Opt (Chr CHR '';''), One (Chr CHR '')'')]"

text \<open>\<^verbatim>\<open>import\s+([\w\.]+)\<close>\<close>

definition py_import :: "item list" where
  "py_import = lit ''import'' @ [Plus Space, GroupOpen, Plus WordOrDot, GroupClose]"

text \<open>\<^verbatim>\<open>from\s+([\w\.]+)\s+import\<close>\<close>

definition py_from_import :: "item list" where
  "py_from_import =
     lit ''from'' @ [Plus Space, GroupOpen, Plus WordOrDot, GroupClose, Plus Space]
       @ lit ''import''"

section \<open>Import extraction\<close>

record ImportInfo =
  imp_path :: string
  imp_type :: string

text \<open>The body of the JavaScript/TypeScript loop: what one matched import path appends.\<close>

definition js_import_info :: "string \<Rightarrow> string \<Rightarrow> string \<Rightarrow> string \<Rightarrow> ImportInfo" where
  "js_import_info file_path root_path import_type import_path =
     (if startswith import_path ''components/''
      then \<lparr>imp_path = ''/ui/src/'' @ import_path, imp_type = import_type\<rparr>
      else if startswith import_path ''utils/''
      then \<lparr>imp_path = ''/ui/src/'' @ import_path, imp_type = import_type\<rparr>
      else if startswith import_path ''@/''
      then \<lparr>imp_path = ''/ui/src/'' @ drop 2 import_path, imp_type = import_type\<rparr>
      else if \<not> (startswith import_path ''.'' \<or> startswith import_path ''/'')
      then (if import_path \<in> set [''react'', ''react-dom'', ''react-router-dom'', ''app'', ''brain'']
            then \<lparr>imp_path = import_path, imp_type = ''external''\<rparr>
            else \<lparr>imp_path = import_path, imp_type = import_type\<rparr>)
      else
        let dirname = os_path_dirname file_path
        in if startswith import_path ''.''
           then
             let source_dir = os_path_dirname (os_path_join root_path (lstrip_sep file_path));
                 full_path =
                   (if startswith import_path ''./''
                    then os_path_normpath (os_path_join source_dir (drop 2 import_path))
                    else if startswith import_path ''../''
                    then os_path_normpath (os_path_join source_dir import_path)
                    else os_path_normpath (os_path_join dirname import_path))
             in if startswith full_path root_path
                then \<lparr>imp_path = drop (length root_path) full_path, imp_type = import_type\<rparr>
                else \<lparr>imp_path = import_path, imp_type = import_type\<rparr>
           else \<lparr>imp_path = import_path, imp_type = import_type\<rparr>)"

text \<open>The body of the Python loop.\<close>

definition py_import_info :: "string \<Rightarrow> string \<Rightarrow> ImportInfo" where
  "py_import_info import_type match =
     (if match = ''app'' \<or> startswith match ''app.''
      then
        let module_path = (if startswith match ''app.'' then drop 4 match else [])
        in if startswith module_path ''apis.''
           then \<lparr>imp_path = ''/src/app/apis/'' @ drop 5 module_path, imp_type = import_type\<rparr>
           else \<lparr>imp_path = match, imp_type = ''internal''\<rparr>
      else if match \<in> set [''databutton'', ''fastapi'', ''pydantic'']
      then \<lparr>imp_path = match, imp_type = ''external''\<rparr>
      else \<lparr>imp_path = match, imp_type = import_type\<rparr>)"

definition js_import_patterns :: "(item list \<times> string) list" where
  "js_import_patterns =
     [(js_import_from, ''module''), (js_import_direct, ''direct''), (js_require, ''require'')]"

definition py_import_patterns :: "(item list \<times> string) list" where
  "py_import_patterns = [(py_import, ''module''), (py_from_import, ''from'')]"

text \<open>The non-empty matches of one pattern, in match order.\<close>

definition matches :: "item list \<Rightarrow> string \<Rightarrow> string list" where
  "matches pattern content = filter (\<lambda>m. m \<noteq> []) (findall pattern content)"

definition extract_imports :: "string \<Rightarrow> string \<Rightarrow> string \<Rightarrow> ImportInfo list" where
  "extract_imports file_path content root_path =
     (let ext = get_file_extension file_path
      in if ext \<in> set [''js'', ''jsx'', ''ts'', ''tsx'']
         then concat (map (\<lambda>(pattern, import_type).
                             map (js_import_info file_path root_path import_type)
                                 (matches pattern content))
                          js_import_patterns)
         else if ext = ''py''
         then concat (map (\<lambda>(pattern, import_type).
                             map (py_import_info import_type) (matches pattern content))
                          py_import_patterns)
         else [])"

text \<open>The default of the parameter \<^verbatim>\<open>root_path\<close>.\<close>

definition default_root_path :: string where
  "default_root_path = ''/app''"

section \<open>The file system and exceptions\<close>

text \<open>
  An exception carries its message (\<^verbatim>\<open>str(e)\<close>). \<open>OtherException\<close> stands for
  every exception class the program does not name.
\<close>

datatype exn =
    PermissionError string
  | FileNotFoundError string
  | OtherException string
  | HTTPException int string

text \<open>
  \<^verbatim>\<open>str(e)\<close>. For an \<open>HTTPException\<close> the text is taken to be its detail; the
  one place that raises it inside the handler is never reached (lemma
  \<open>scan_failure_from_walk\<close>).
\<close>

fun str_exn :: "exn \<Rightarrow> string" where
  "str_exn (PermissionError msg) = msg"
| "str_exn (FileNotFoundError msg) = msg"
| "str_exn (OtherException msg) = msg"
| "str_exn (HTTPException status detail) = detail"

fun is_PermissionError :: "exn \<Rightarrow> bool" where
  "is_PermissionError (PermissionError msg) = True"
| "is_PermissionError e = False"

fun is_FileNotFoundError :: "exn \<Rightarrow> bool" where
  "is_FileNotFoundError (FileNotFoundError msg) = True"
| "is_FileNotFoundError e = False"

text \<open>Timestamps are only copied by the program, never computed with.\<close>

type_synonym timestamp = int

record stat_result =
  st_isdir :: bool
  st_size :: int
  st_mtime :: timestamp

text \<open>
  The file system as the program sees it during one scan: what \<^verbatim>\<open>os.stat\<close>,
  \<^verbatim>\<open>os.listdir\<close> and reading a file as UTF-8 text answer for a path. Nothing is
  assumed about these answers, so a directory may list itself, and a listing may name
  entries that do not exist.
\<close>

record fs =
  stat :: "string \<Rightarrow> exn + stat_result"
  listdir :: "string \<Rightarrow> exn + string list"
  read_text :: "string \<Rightarrow> exn + string"

text \<open>The functions of \<^verbatim>\<open>os.path\<close> that ask the file system, as genericpath defines them.\<close>

definition os_path_exists :: "fs \<Rightarrow> string \<Rightarrow> bool" where
  "os_path_exists f p = (case stat f p of Inl e \<Rightarrow> False | Inr st \<Rightarrow> True)"

definition os_path_isdir :: "fs \<Rightarrow> string \<Rightarrow> bool" where
  "os_path_isdir f p = (case stat f p of Inl e \<Rightarrow> False | Inr st \<Rightarrow> st_isdir st)"

definition os_path_getsize :: "fs \<Rightarrow> string \<Rightarrow> exn + int" where
  "os_path_getsize f p = (case stat f p of Inl e \<Rightarrow> Inl e | Inr st \<Rightarrow> Inr (st_size st))"

definition os_path_getmtime :: "fs \<Rightarrow> string \<Rightarrow> exn + timestamp" where
  "os_path_getmtime f p = (case stat f p of Inl e \<Rightarrow> Inl e | Inr st \<Rightarrow> Inr (st_mtime st))"

section \<open>The data model\<close>

datatype FileNode = FileNode
  (node_name: string)
  (node_path: string)
  (node_type: string)
  (node_size: int)
  (last_modified: "timestamp option")
  (children: "FileNode list option")
  (node_imports: "ImportInfo list option")
  (language: "string option")

record CodebaseLink =
  source :: string
  target :: string
  link_type :: string

text \<open>\<^verbatim>\<open>file_types\<close> is a dictionary: keys in insertion order.\<close>

record CodebaseStats =
  total_files :: int
  total_directories :: int
  total_size_bytes :: int
  file_types :: "(string \<times> int) list"

record CodebaseResponse =
  "structure" :: FileNode
  stats :: CodebaseStats
  links :: "CodebaseLink list"

text \<open>\<^verbatim>\<open>all_files_map\<close>: a dictionary from path to file node, in insertion order.\<close>

type_synonym files_map = "(string \<times> FileNode) list"

section \<open>The tree walker\<close>

definition excluded_dirs :: "string list" where
  "excluded_dirs =
     [''.git'', ''node_modules'', ''__pycache__'', ''venv'', ''.venv'', ''dist'', ''build'',
      ''.next'', ''.idea'']"

text \<open>\<^verbatim>\<open>os.path.basename(current_path) or os.path.basename(base_path)\<close>\<close>

definition target_basename :: "string \<Rightarrow> string \<Rightarrow> string" where
  "target_basename base_path current_path =
     (if os_path_basename current_path \<noteq> [] then os_path_basename current_path
      else os_path_basename base_path)"

text \<open>The name of the node: the basename, or the API directory's name for its init file.\<close>

definition scan_name :: "string \<Rightarrow> string \<Rightarrow> string" where
  "scan_name base_path current_path =
     (let name = target_basename base_path current_path
      in if name = ''__init__.py'' \<and> contains current_path ''/apis/''
         then os_path_basename (os_path_dirname current_path) @ ''.py''
         else name)"

text \<open>\<^verbatim>\<open>current_path or "/"\<close>\<close>

definition path_or_root :: "string \<Rightarrow> string" where
  "path_or_root current_path = (if current_path \<noteq> [] then current_path else ''/'')"

text \<open>\<^verbatim>\<open>os.path.getmtime(full_path) if os.path.exists(full_path) else None\<close>\<close>

definition mtime_if_exists :: "fs \<Rightarrow> string \<Rightarrow> exn + timestamp option" where
  "mtime_if_exists f full_path =
     (if os_path_exists f full_path
      then (case os_path_getmtime f full_path of Inl e \<Rightarrow> Inl e | Inr t \<Rightarrow> Inr (Some t))
      else Inr None)"

text \<open>
  The directory node that both the excluded-name branch and the directory branch
  return; reading the modification time is the last thing that can raise.
\<close>

definition directory_node ::
  "fs \<Rightarrow> string \<Rightarrow> string \<Rightarrow> string \<Rightarrow> int \<Rightarrow> FileNode list \<Rightarrow> exn + FileNode option" where
  "directory_node f full_path name current_path total_size children_list =
     (case mtime_if_exists f full_path of
        Inl e \<Rightarrow> Inl e
      | Inr t \<Rightarrow> Inr (Some (FileNode name (path_or_root current_path) ''directory'' total_size
                               t (Some children_list) None None)))"

text \<open>
  The file branch. A failure to read the text is caught and leaves the imports empty
  (the message it prints is not modelled).
\<close>

definition scan_file ::
  "fs \<Rightarrow> string \<Rightarrow> string \<Rightarrow> string \<Rightarrow> string \<Rightarrow> files_map
     \<Rightarrow> (exn + FileNode option) \<times> files_map" where
  "scan_file f base_path current_path full_path name all_files_map =
     (case os_path_getsize f full_path of
        Inl e \<Rightarrow> if is_PermissionError e \<or> is_FileNotFoundError e
                 then (Inr None, all_files_map) else (Inl e, all_files_map)
      | Inr size_bytes \<Rightarrow>
          (case os_path_getmtime f full_path of
             Inl e \<Rightarrow> if is_PermissionError e \<or> is_FileNotFoundError e
                      then (Inr None, all_files_map) else (Inl e, all_files_map)
           | Inr mtime \<Rightarrow>
               let file_language = get_language full_path;
                   import_list =
                     (if get_file_extension full_path \<in> set [''js'', ''jsx'', ''ts'', ''tsx'', ''py'']
                      then (case read_text f full_path of
                              Inl e \<Rightarrow> []
                            | Inr content \<Rightarrow> extract_imports current_path content base_path)
                      else []);
                   file_node = FileNode name current_path ''file'' size_bytes (Some mtime) None
                                 (Some import_list) (Some file_language)
               in (Inr (Some file_node), AList.update current_path file_node all_files_map)))"

definition max_items :: nat where
  "max_items = 100"

text \<open>
  \<open>scan_directory\<close> returns what the call returns or raises, together with the file
  map as the call leaves it. \<open>scan_items\<close> is its loop over the listed items, with the
  loop's variables \<^verbatim>\<open>children\<close> and \<^verbatim>\<open>total_size\<close>; it stops at the first item
  whose scan raises and hands the exception to the handler around the loop.
\<close>

function scan_directory ::
    "fs \<Rightarrow> string \<Rightarrow> string \<Rightarrow> int \<Rightarrow> files_map \<Rightarrow> (exn + FileNode option) \<times> files_map"
  and scan_items ::
    "fs \<Rightarrow> string \<Rightarrow> string \<Rightarrow> int \<Rightarrow> string list \<Rightarrow> FileNode list \<Rightarrow> int \<Rightarrow> files_map
       \<Rightarrow> (exn option \<times> FileNode list \<times> int) \<times> files_map"
where
  "scan_directory f base_path current_path max_depth all_files_map =
     (if max_depth \<le> 0 then (Inr None, all_files_map)
      else if \<not> os_path_exists f (os_path_join base_path current_path)
      then (Inr None, all_files_map)
      else if scan_name base_path current_path \<in> set excluded_dirs
      then (directory_node f (os_path_join base_path current_path)
              (scan_name base_path current_path) current_path 0 [], all_files_map)
      else if os_path_isdir f (os_path_join base_path current_path)
      then
        (case (case listdir f (os_path_join base_path current_path) of
                 Inl e \<Rightarrow> ((Some e, [], 0), all_files_map)
               | Inr items \<Rightarrow>
                   scan_items f base_path current_path max_depth (take max_items items)
                     [] 0 all_files_map)
         of ((raised, children_list, total_size), files) \<Rightarrow>
           (case raised of
              None \<Rightarrow>
                (directory_node f (os_path_join base_path current_path)
                   (scan_name base_path current_path) current_path total_size children_list,
                 files)
            | Some e \<Rightarrow>
                if is_PermissionError e
                then (directory_node f (os_path_join base_path current_path)
                        (scan_name base_path current_path) current_path total_size
                        children_list,
                      files)
                else (Inl e, files)))
      else scan_file f base_path current_path (os_path_join base_path current_path)
             (scan_name base_path current_path) all_files_map)"
| "scan_items f base_path current_path max_depth [] children_list total_size all_files_map =
     ((None, children_list, total_size), all_files_map)"
| "scan_items f base_path current_path max_depth (item # items) children_list total_size
     all_files_map =
     (case scan_directory f base_path (os_path_join current_path item) (max_depth - 1)
             all_files_map
      of (Inl e, files) \<Rightarrow> ((Some e, children_list, total_size), files)
       | (Inr None, files) \<Rightarrow>
           scan_items f base_path current_path max_depth items children_list total_size files
       | (Inr (Some child_node), files) \<Rightarrow>
           scan_items f base_path current_path max_depth items (children_list @ [child_node])
             (if node_size child_node \<noteq> 0 then total_size + node_size child_node
              else total_size)
             (if node_type child_node = ''file''
              then AList.update (node_path child_node) child_node files else files))"
  by pat_completeness auto
termination
  by (relation
        "(\<lambda>x. case x of
                 Inl (f, base_path, current_path, max_depth, m) \<Rightarrow> 2 * nat max_depth
               | Inr (f, base_path, current_path, max_depth, items, r) \<Rightarrow>
                   2 * nat (max_depth - 1) + 1)
         <*mlex*>
         measure (\<lambda>x. case x of
                        Inl a \<Rightarrow> 0
                      | Inr (f, base_path, current_path, max_depth, items, r) \<Rightarrow> length items)")
     (auto simp: wf_mlex mlex_less mlex_leq)

text \<open>The default of the parameter \<^verbatim>\<open>max_depth\<close>.\<close>

definition default_max_depth :: int where
  "default_max_depth = 5"

section \<open>The stats aggregator\<close>

text \<open>\<^verbatim>\<open>d[k] = d.get(k, 0) + 1\<close>\<close>

definition count_type :: "string \<Rightarrow> (string \<times> int) list \<Rightarrow> (string \<times> int) list" where
  "count_type k d = AList.update k ((case map_of d k of None \<Rightarrow> 0 | Some n \<Rightarrow> n) + 1) d"

text \<open>
  \<open>traverse\<close> threads the dictionary \<^verbatim>\<open>stats\<close> that the nested function of the
  source updates in place; \<open>traverse_children\<close> is its loop over the children.
\<close>

fun traverse :: "FileNode \<Rightarrow> CodebaseStats \<Rightarrow> CodebaseStats"
  and traverse_children :: "FileNode list \<Rightarrow> CodebaseStats \<Rightarrow> CodebaseStats"
where
  "traverse (FileNode name path type size_bytes mtime children_opt imports_opt lang) st =
     (if type = ''directory''
      then (case children_opt of
              None \<Rightarrow> st\<lparr>total_directories := total_directories st + 1\<rparr>
            | Some cs \<Rightarrow> traverse_children cs (st\<lparr>total_directories := total_directories st + 1\<rparr>))
      else
        let st1 = st\<lparr>total_files := total_files st + 1,
                     total_size_bytes := total_size_bytes st + size_bytes\<rparr>;
            ext = get_file_extension path
        in if ext \<noteq> [] then st1\<lparr>file_types := count_type ext (file_types st1)\<rparr>
           else st1\<lparr>file_types := count_type ''no_extension'' (file_types st1)\<rparr>)"
| "traverse_children [] st = st"
| "traverse_children (child # cs) st = traverse_children cs (traverse child st)"

definition calculate_stats :: "FileNode \<Rightarrow> CodebaseStats" where
  "calculate_stats root =
     traverse root \<lparr>total_files = 0, total_directories = 0, total_size_bytes = 0, file_types = []\<rparr>"

section \<open>The snapshot store\<close>

text \<open>
  \<^verbatim>\<open>response.dict()\<close>: a dictionary with the three keys of the response. The store
  is a key-value map; \<^verbatim>\<open>put\<close> replaces the document under a key and
  \<^verbatim>\<open>get\<close> reads it, returning the default when there is none.
\<close>

datatype field =
    StructureField FileNode
  | StatsField CodebaseStats
  | LinksField "CodebaseLink list"

type_synonym document = "(string \<times> field) list"

type_synonym storage = "string \<rightharpoonup> document"

definition response_dict :: "CodebaseResponse \<Rightarrow> document" where
  "response_dict response =
     [(''structure'', StructureField (structure response)),
      (''stats'', StatsField (stats response)),
      (''links'', LinksField (links response))]"

definition snapshot_key :: string where
  "snapshot_key = ''codebase-snapshot-latest''"

definition storage_put :: "string \<Rightarrow> document \<Rightarrow> storage \<Rightarrow> storage" where
  "storage_put k doc store = store(k \<mapsto> doc)"

definition storage_get :: "string \<Rightarrow> storage \<Rightarrow> document option" where
  "storage_get k store = store k"

section \<open>The scan endpoint\<close>

definition base_path_app :: string where
  "base_path_app = ''/app''"

definition category_node :: "string \<Rightarrow> string \<Rightarrow> FileNode" where
  "category_node name path = FileNode name path ''directory'' 0 None (Some []) None None"

definition initial_categories :: "(string \<times> FileNode) list" where
  "initial_categories =
     [(''Pages'', category_node ''Pages'' ''/ui/src/pages''),
      (''UI Components'', category_node ''UI Components'' ''/ui/src/components''),
      (''UI Files'', category_node ''UI Files'' ''/ui/src/utils''),
      (''APIs'', category_node ''APIs'' ''/src/app/apis''),
      (''Media'', category_node ''Media (Public)'' ''/static-assets''),
      (''Storage'', category_node ''Internal Storage'' ''/storage'')]"

definition category_paths :: "(string \<times> string) list" where
  "category_paths =
     [(''Pages'', ''ui/src/pages''), (''UI Components'', ''ui/src/components''),
      (''UI Files'', ''ui/src/utils''), (''APIs'', ''src/app/apis'')]"

text \<open>The two assignments \<^verbatim>\<open>.children = node.children\<close> and \<^verbatim>\<open>.size = node.size\<close>.\<close>

definition take_over :: "FileNode \<Rightarrow> FileNode \<Rightarrow> FileNode" where
  "take_over node c =
     FileNode (node_name c) (node_path c) (node_type c) (node_size node) (last_modified c)
       (children node) (node_imports c) (language c)"

text \<open>
  The first loop: scan each category directory that exists. The state is the dictionary
  \<^verbatim>\<open>categories\<close>, \<^verbatim>\<open>structure.size\<close> and the file map. Every key of
  \<open>category_paths\<close> is a key of \<open>categories\<close>.
\<close>

fun scan_categories ::
  "fs \<Rightarrow> (string \<times> string) list \<Rightarrow> (string \<times> FileNode) list \<Rightarrow> int \<Rightarrow> files_map
     \<Rightarrow> exn + (string \<times> FileNode) list \<times> int \<times> files_map" where
  "scan_categories f [] categories structure_size all_files_map =
     Inr (categories, structure_size, all_files_map)"
| "scan_categories f ((category, path) # rest) categories structure_size all_files_map =
     (if os_path_exists f (os_path_join base_path_app path)
         \<and> os_path_isdir f (os_path_join base_path_app path)
      then (case scan_directory f base_path_app path default_max_depth all_files_map of
              (Inl e, files) \<Rightarrow> Inl e
            | (Inr None, files) \<Rightarrow> scan_categories f rest categories structure_size files
            | (Inr (Some node), files) \<Rightarrow>
                scan_categories f rest (AList.map_entry category (take_over node) categories)
                  (structure_size + node_size node) files)
      else scan_categories f rest categories structure_size all_files_map)"

definition simple_node :: "FileNode \<Rightarrow> FileNode" where
  "simple_node c =
     FileNode (''(No '' @ node_name c @ '')'') (node_path c) ''file'' 100 None None None
       (Some ''Text'')"

text \<open>A list attribute is true when it is a non-empty list.\<close>

fun truthy :: "'a list option \<Rightarrow> bool" where
  "truthy None = False"
| "truthy (Some xs) = (xs \<noteq> [])"

text \<open>The second loop: which category nodes become children of the root.\<close>

fun add_categories :: "FileNode list \<Rightarrow> FileNode list \<Rightarrow> FileNode list" where
  "add_categories [] structure_children = structure_children"
| "add_categories (c # cs) structure_children =
     (if truthy (children c) then add_categories cs (structure_children @ [c])
      else if node_name c \<in> set [''Media (Public)'', ''Internal Storage'']
      then add_categories cs
             (structure_children
                @ [FileNode (node_name c) (node_path c) (node_type c) (node_size c)
                     (last_modified c) (Some [simple_node c]) (node_imports c) (language c)])
      else add_categories cs structure_children)"

text \<open>
  The link builder, first pass: one edge for every import that is not external (a file
  without imports, or with an empty list of them, gives none).
\<close>

definition import_links_of :: "string \<times> FileNode \<Rightarrow> CodebaseLink list" where
  "import_links_of entry =
     (case entry of (file_path, file_node) \<Rightarrow>
        (case node_imports file_node of
           None \<Rightarrow> []
         | Some import_list \<Rightarrow>
             map (\<lambda>import_info. \<lparr>source = file_path, target = imp_path import_info,
                                  link_type = imp_type import_info\<rparr>)
                 (filter (\<lambda>import_info. imp_type import_info \<noteq> ''external'') import_list)))"

definition api_usage_link :: "string \<Rightarrow> CodebaseLink" where
  "api_usage_link file_path =
     \<lparr>source = file_path, target = ''src/app/apis/codebase'', link_type = ''api-usage''\<rparr>"

text \<open>Second pass: the edges for the calls of the API client found in the text.\<close>

definition brain_links_of :: "fs \<Rightarrow> string \<times> FileNode \<Rightarrow> CodebaseLink list" where
  "brain_links_of f entry =
     (case entry of (file_path, file_node) \<Rightarrow>
        (case node_imports file_node of
           None \<Rightarrow> []
         | Some import_list \<Rightarrow>
             if (endswith file_path ''.tsx'' \<or> endswith file_path ''.ts''
                   \<or> endswith file_path ''.jsx'' \<or> endswith file_path ''.js'')
                \<and> import_list \<noteq> []
                \<and> list_ex (\<lambda>imp. imp_path imp = ''brain'' \<and> imp_type imp = ''external'')
                     import_list
             then (case read_text f (os_path_join base_path_app file_path) of
                     Inl e \<Rightarrow> []
                   | Inr content \<Rightarrow>
                       (if contains content ''brain.scan_codebase''
                        then [api_usage_link file_path] else [])
                       @ (if contains content ''brain.get_codebase_history''
                          then [api_usage_link file_path] else []))
             else []))"

definition build_links :: "fs \<Rightarrow> files_map \<Rightarrow> CodebaseLink list" where
  "build_links f all_files_map =
     concat (map import_links_of all_files_map) @ concat (map (brain_links_of f) all_files_map)"

text \<open>Everything the handler computes before it writes the snapshot.\<close>

definition scan_response :: "fs \<Rightarrow> exn + CodebaseResponse" where
  "scan_response f =
     (case scan_categories f category_paths initial_categories 0 [] of
        Inl e \<Rightarrow> Inl e
      | Inr (categories, structure_size, all_files_map) \<Rightarrow>
          let root = FileNode ''Taskflow App'' ''/'' ''directory'' structure_size None
                       (Some (add_categories (map snd categories) [])) None None
          in if \<not> truthy (children root)
             then Inl (HTTPException 500 ''Failed to scan codebase structure'')
             else Inr \<lparr>structure = root, stats = calculate_stats root,
                       links = build_links f all_files_map\<rparr>)"

text \<open>
  The handler: any exception becomes status 500 with its message; the snapshot is
  written after the response has been built.
\<close>

definition scan_codebase :: "fs \<Rightarrow> storage \<Rightarrow> (exn + CodebaseResponse) \<times> storage" where
  "scan_codebase f store =
     (case scan_response f of
        Inl e \<Rightarrow> (Inl (HTTPException 500 (''Error scanning codebase: '' @ str_exn e)), store)
      | Inr response \<Rightarrow>
          (Inr response, storage_put snapshot_key (response_dict response) store))"

section \<open>The history endpoint\<close>

datatype history_response =
    Message string         \<comment> \<open>the object with the one key \<^verbatim>\<open>message\<close>\<close>
  | Snapshot document      \<comment> \<open>the stored document\<close>

definition get_codebase_history :: "storage \<Rightarrow> exn + history_response" where
  "get_codebase_history store =
     (case storage_get snapshot_key store of
        None \<Rightarrow> Inr (Message ''No codebase snapshot available. Please scan first.'')
      | Some snapshot \<Rightarrow>
          if snapshot = []
          then Inr (Message ''No codebase snapshot available. Please scan first.'')
          else Inr (Snapshot snapshot))"

section \<open>Notions used in the properties\<close>

text \<open>
  The nodes of a tree, the root first. Children hang off directory nodes: the data
  model has no children for a file, and the traversals of the program never look for
  any there.
\<close>

fun nodes :: "FileNode \<Rightarrow> FileNode list"
  and nodes_list :: "FileNode list \<Rightarrow> FileNode list"
where
  "nodes (FileNode name path type size_bytes mtime children_opt imports_opt lang) =
     FileNode name path type size_bytes mtime children_opt imports_opt lang
       # (if type = ''directory''
          then (case children_opt of None \<Rightarrow> [] | Some cs \<Rightarrow> nodes_list cs)
          else [])"
| "nodes_list [] = []"
| "nodes_list (child # cs) = nodes child @ nodes_list cs"

text \<open>Every node below the root, also below nodes that are not directories.\<close>

fun all_nodes :: "FileNode \<Rightarrow> FileNode list"
  and all_nodes_list :: "FileNode list \<Rightarrow> FileNode list"
where
  "all_nodes (FileNode name path type size_bytes mtime children_opt imports_opt lang) =
     FileNode name path type size_bytes mtime children_opt imports_opt lang
       # (case children_opt of None \<Rightarrow> [] | Some cs \<Rightarrow> all_nodes_list cs)"
| "all_nodes_list [] = []"
| "all_nodes_list (child # cs) = all_nodes child @ all_nodes_list cs"

text \<open>The sum of the sizes of the immediate children.\<close>

definition children_size :: "FileNode list option \<Rightarrow> int" where
  "children_size children_opt =
     (case children_opt of None \<Rightarrow> 0 | Some cs \<Rightarrow> sum_list (map node_size cs))"

text \<open>
  Every directory node of the tree, at any level and below any node, has as size the
  sum of the sizes of its immediate children.
\<close>

fun sizes_consistent :: "FileNode \<Rightarrow> bool"
  and sizes_consistent_list :: "FileNode list \<Rightarrow> bool"
where
  "sizes_consistent (FileNode name path type size_bytes mtime children_opt imports_opt lang) =
     ((if type = ''directory'' then size_bytes = children_size children_opt else True)
      \<and> (case children_opt of None \<Rightarrow> True | Some cs \<Rightarrow> sizes_consistent_list cs))"
| "sizes_consistent_list [] = True"
| "sizes_consistent_list (child # cs) = (sizes_consistent child \<and> sizes_consistent_list cs)"

text \<open>
  The two placeholder categories as they stand in an answer of the scan endpoint: a
  directory node of size 0 whose one child is a file node of size 100.
\<close>

definition media_placeholder :: FileNode where
  "media_placeholder =
     FileNode ''Media (Public)'' ''/static-assets'' ''directory'' 0 None
       (Some [FileNode ''(No Media (Public))'' ''/static-assets'' ''file'' 100 None None None
                (Some ''Text'')])
       None None"

definition storage_placeholder :: FileNode where
  "storage_placeholder =
     FileNode ''Internal Storage'' ''/storage'' ''directory'' 0 None
       (Some [FileNode ''(No Internal Storage)'' ''/storage'' ''file'' 100 None None None
                (Some ''Text'')])
       None None"

text \<open>
  The invariant of the first loop of the scan endpoint: the size of the root is the sum
  of the sizes of the category nodes, and these are consistent directory nodes.
\<close>

definition cats_ok :: "(string \<times> FileNode) list \<Rightarrow> int \<Rightarrow> bool" where
  "cats_ok cats ssize =
     (ssize = sum_list (map (\<lambda>p. node_size (snd p)) cats)
      \<and> (\<forall>(k, c) \<in> set cats. node_type c = ''directory'' \<and> sizes_consistent c))"

text \<open>The number of levels of a tree.\<close>

fun tree_depth :: "FileNode \<Rightarrow> nat"
  and tree_depth_list :: "FileNode list \<Rightarrow> nat"
where
  "tree_depth (FileNode name path type size_bytes mtime children_opt imports_opt lang) =
     1 + (case children_opt of None \<Rightarrow> 0 | Some cs \<Rightarrow> tree_depth_list cs)"
| "tree_depth_list [] = 0"
| "tree_depth_list (child # cs) = max (tree_depth child) (tree_depth_list cs)"

text \<open>
  A path lies under the root when it is the root, or continues the root after a
  separator: \<^verbatim>\<open>/app/ui\<close> lies under \<^verbatim>\<open>/app\<close>, and \<^verbatim>\<open>/app2/x\<close> does not,
  although it begins with the same characters.
\<close>

definition under_root :: "string \<Rightarrow> string \<Rightarrow> bool" where
  "under_root root_path full_path =
     (full_path = root_path
      \<or> startswith full_path (if endswith root_path ''/'' then root_path
                               else root_path @ ''/''))"


section \<open>Example file systems\<close>

definition dir_stat :: stat_result where
  "dir_stat = \<lparr>st_isdir = True, st_size = 4096, st_mtime = 1700000000\<rparr>"

definition file_stat :: "int \<Rightarrow> stat_result" where
  "file_stat n = \<lparr>st_isdir = False, st_size = n, st_mtime = 1700000001\<rparr>"

definition app_tsx :: string where
  "app_tsx =
     ''import brain from '' @ [CHR 0x27] @ ''brain'' @ [CHR 0x27] @ '';'' @ [CHR 0x0A]
       @ ''import x from '' @ [CHR 0x27] @ ''./util'' @ [CHR 0x27] @ '';'' @ [CHR 0x0A]
       @ ''brain.scan_codebase()''"

text \<open>
  A small project: a page that uses the API client, a regular file named \<^verbatim>\<open>build\<close>,
  a \<^verbatim>\<open>node_modules\<close> directory with a file in it, and one API module.
\<close>

definition demo_fs :: fs where
  "demo_fs =
     \<lparr>stat = (\<lambda>p. if p \<in> set [''/app/ui/src/pages'', ''/app/ui/src/pages/node_modules'',
                                ''/app/src/app/apis'', ''/app/src/app/apis/codebase'']
                   then Inr dir_stat
                   else if p = ''/app/ui/src/pages/App.tsx'' then Inr (file_stat 120)
                   else if p = ''/app/ui/src/pages/build'' then Inr (file_stat 7)
                   else if p = ''/app/ui/src/pages/node_modules/x.js'' then Inr (file_stat 9)
                   else if p = ''/app/src/app/apis/codebase/__init__.py''
                   then Inr (file_stat 44)
                   else Inl (FileNotFoundError p)),
      listdir = (\<lambda>p. if p = ''/app/ui/src/pages''
                      then Inr [''App.tsx'', ''build'', ''node_modules'']
                      else if p = ''/app/ui/src/pages/node_modules'' then Inr [''x.js'']
                      else if p = ''/app/src/app/apis'' then Inr [''codebase'']
                      else if p = ''/app/src/app/apis/codebase'' then Inr [''__init__.py'']
                      else Inl (OtherException p)),
      read_text = (\<lambda>p. if p = ''/app/ui/src/pages/App.tsx'' then Inr app_tsx
                        else if p = ''/app/src/app/apis/codebase/__init__.py''
                        then Inr ''from app.apis.codebase import scan_codebase''
                        else Inl (FileNotFoundError p))\<rparr>"

text \<open>A project whose pages directory cannot be listed, for a reason other than permissions.\<close>

definition failing_fs :: fs where
  "failing_fs =
     \<lparr>stat = (\<lambda>p. if p = ''/app/ui/src/pages'' then Inr dir_stat
                   else Inl (FileNotFoundError p)),
      listdir = (\<lambda>p. Inl (OtherException ''Input/output error'')),
      read_text = (\<lambda>p. Inl (FileNotFoundError p))\<rparr>"

text \<open>A machine on which none of the scanned directories exists.\<close>

definition empty_fs :: fs where
  "empty_fs =
     \<lparr>stat = (\<lambda>p. Inl (FileNotFoundError p)),
      listdir = (\<lambda>p. Inl (FileNotFoundError p)),
      read_text = (\<lambda>p. Inl (FileNotFoundError p))\<rparr>"

text \<open>What the scan endpoint answers there: the two placeholder categories only.\<close>

definition empty_response :: CodebaseResponse where
  "empty_response =
     \<lparr>structure =
        FileNode ''Taskflow App'' ''/'' ''directory'' 0 None
          (Some
            [FileNode ''Media (Public)'' ''/static-assets'' ''directory'' 0 None
               (Some [FileNode ''(No Media (Public))'' ''/static-assets'' ''file'' 100 None
                        None None (Some ''Text'')])
               None None,
             FileNode ''Internal Storage'' ''/storage'' ''directory'' 0 None
               (Some [FileNode ''(No Internal Storage)'' ''/storage'' ''file'' 100 None
                        None None (Some ''Text'')])
               None None])
          None None,
      stats = \<lparr>total_files = 2, total_directories = 3, total_size_bytes = 200,
                file_types = [(''no_extension'', 2)]\<rparr>,
      links = []\<rparr>"

text \<open>What the walker returns for the pages directory of the small project.\<close>

definition demo_pages :: FileNode where
  "demo_pages =
     FileNode ''pages'' ''ui/src/pages'' ''directory'' 120 (Some 1700000000)
       (Some
         [FileNode ''App.tsx'' ''ui/src/pages/App.tsx'' ''file'' 120 (Some 1700000001) None
            (Some [\<lparr>imp_path = ''brain'', imp_type = ''external''\<rparr>,
                   \<lparr>imp_path = ''/ui/src/pages/util'', imp_type = ''module''\<rparr>])
            (Some ''TypeScript (React)''),
          FileNode ''build'' ''ui/src/pages/build'' ''directory'' 0 (Some 1700000001)
            (Some []) None None,
          FileNode ''node_modules'' ''ui/src/pages/node_modules'' ''directory'' 0
            (Some 1700000000) (Some []) None None])
       None None"

definition demo_files :: files_map where
  "demo_files =
     [(''ui/src/pages/App.tsx'',
       FileNode ''App.tsx'' ''ui/src/pages/App.tsx'' ''file'' 120 (Some 1700000001) None
         (Some [\<lparr>imp_path = ''brain'', imp_type = ''external''\<rparr>,
                \<lparr>imp_path = ''/ui/src/pages/util'', imp_type = ''module''\<rparr>])
         (Some ''TypeScript (React)''))]"

text \<open>
  What the scan endpoint answers for the small project: the two categories that exist
  (their nodes carry the category's name and path, and the size and children of the
  walk), then the two placeholder categories; the root has size 120 + 44.
\<close>

definition demo_apis :: FileNode where
  "demo_apis =
     FileNode ''APIs'' ''/src/app/apis'' ''directory'' 44 None
       (Some
         [FileNode ''codebase'' ''src/app/apis/codebase'' ''directory'' 44 (Some 1700000000)
            (Some
              [FileNode ''codebase.py'' ''src/app/apis/codebase/__init__.py'' ''file'' 44
                 (Some 1700000001) None
                 (Some [\<lparr>imp_path = ''scan_codebase'', imp_type = ''module''\<rparr>,
                        \<lparr>imp_path = ''/src/app/apis/codebase'', imp_type = ''from''\<rparr>])
                 (Some ''Python'')])
            None None])
       None None"

definition demo_root :: FileNode where
  "demo_root =
     FileNode ''Taskflow App'' ''/'' ''directory'' 164 None
       (Some [take_over demo_pages (category_node ''Pages'' ''/ui/src/pages''), demo_apis,
              media_placeholder, storage_placeholder])
       None None"

definition demo_response :: CodebaseResponse where
  "demo_response =
     \<lparr>structure = demo_root,
      stats = \<lparr>total_files = 4, total_directories = 8, total_size_bytes = 364,
                file_types = [(''tsx'', 1), (''py'', 1), (''no_extension'', 2)]\<rparr>,
      links =
        [\<lparr>source = ''ui/src/pages/App.tsx'', target = ''/ui/src/pages/util'',
           link_type = ''module''\<rparr>,
         \<lparr>source = ''src/app/apis/codebase/__init__.py'', target = ''scan_codebase'',
           link_type = ''module''\<rparr>,
         \<lparr>source = ''src/app/apis/codebase/__init__.py'',
           target = ''/src/app/apis/codebase'', link_type = ''from''\<rparr>,
         \<lparr>source = ''ui/src/pages/App.tsx'', target = ''src/app/apis/codebase'',
           link_type = ''api-usage''\<rparr>]\<rparr>"

text \<open>
  A file system without a bottom: every path is a directory that lists one entry, as
  under a symbolic link that points back to its own directory.
\<close>

definition loop_fs :: fs where
  "loop_fs =
     \<lparr>stat = (\<lambda>p. Inr dir_stat),
      listdir = (\<lambda>p. Inr [''a'']),
      read_text = (\<lambda>p. Inl (OtherException p))\<rparr>"

definition loop_tree :: FileNode where
  "loop_tree =
     FileNode ''app'' ''/'' ''directory'' 0 (Some 1700000000)
       (Some
         [FileNode ''a'' ''a'' ''directory'' 0 (Some 1700000000)
            (Some
              [FileNode ''a'' ''a/a'' ''directory'' 0 (Some 1700000000)
                 (Some
                   [FileNode ''a'' ''a/a/a'' ''directory'' 0 (Some 1700000000)
                      (Some
                        [FileNode ''a'' ''a/a/a/a'' ''directory'' 0 (Some 1700000000)
                           (Some []) None None])
                      None None])
                 None None])
            None None])
       None None"


text \<open>A store that holds a snapshot of an earlier scan.\<close>

definition old_store :: storage where
  "old_store = Map.empty(snapshot_key \<mapsto> [(''links'', LinksField [])])"

section \<open>Properties of the tree walker: excluded names\<close>

declare scan_directory.simps [simp del]

lemma excluded_not_init: "name \<in> set excluded_dirs \<Longrightarrow> name \<noteq> ''__init__.py''"
  by (auto simp: excluded_dirs_def)

lemma scan_name_excluded:
  "target_basename b c \<in> set excluded_dirs \<Longrightarrow> scan_name b c = target_basename b c"
  by (simp add: scan_name_def Let_def excluded_not_init)

lemma mtime_if_exists_stat:
  "stat f p = Inr st \<Longrightarrow> mtime_if_exists f p = Inr (Some (st_mtime st))"
  by (simp add: mtime_if_exists_def os_path_exists_def os_path_getmtime_def)

lemma scan_directory_excluded:
  assumes "0 < d" and "stat f (os_path_join b c) = Inr st"
    and "target_basename b c \<in> set excluded_dirs"
  shows "scan_directory f b c d m =
           (Inr (Some (FileNode (target_basename b c) (path_or_root c) ''directory'' 0
                         (Some (st_mtime st)) (Some []) None None)), m)"
proof -
  have ex: "os_path_exists f (os_path_join b c)"
    using assms(2) by (simp add: os_path_exists_def)
  have nm: "scan_name b c \<in> set excluded_dirs"
    using assms(3) by (simp add: scan_name_excluded)
  have dn: "directory_node f (os_path_join b c) (scan_name b c) c 0 [] =
      Inr (Some (FileNode (target_basename b c) (path_or_root c) ''directory'' 0
                         (Some (st_mtime st)) (Some []) None None))"
    using assms(2,3) by (simp add: directory_node_def mtime_if_exists_stat scan_name_excluded)
  have nd: "\<not> d \<le> 0"
    using assms(1) by simp
  show ?thesis
    by (subst scan_directory.simps) (simp only: ex nm dn nd if_True if_False simp_thms)
qed

text \<open>
  C6. A scan target that exists and is reached with depth left, and whose basename is
  one of the excluded names, comes back as a directory node of size 0 with an empty
  list of children, and the file map is left as it was. Only the answer of
  \<^verbatim>\<open>os.stat\<close> for the target itself enters the result: the target is never listed
  or read, so any file system that agrees on that one answer gives the same result,
  whatever the target contains.
\<close>

theorem excluded_target_placeholder:
  assumes "0 < max_depth"
    and "stat f (os_path_join base_path current_path) = Inr st"
    and "target_basename base_path current_path \<in> set excluded_dirs"
  shows "scan_directory f base_path current_path max_depth all_files_map =
           (Inr (Some (FileNode (target_basename base_path current_path)
                         (path_or_root current_path) ''directory'' 0 (Some (st_mtime st))
                         (Some []) None None)),
            all_files_map)
         \<and> (\<forall>g. stat g (os_path_join base_path current_path) = Inr st \<longrightarrow>
                scan_directory g base_path current_path max_depth all_files_map =
                scan_directory f base_path current_path max_depth all_files_map)"
  using assms by (simp add: scan_directory_excluded)

text \<open>The directory \<^verbatim>\<open>node_modules\<close> of the example holds a file, and is returned empty.\<close>

theorem excluded_target_placeholder_witness:
  "scan_directory demo_fs ''/app'' ''ui/src/pages/node_modules'' 4 [] =
     (Inr (Some (FileNode ''node_modules'' ''ui/src/pages/node_modules'' ''directory'' 0
                   (Some 1700000000) (Some []) None None)), [])
   \<and> listdir demo_fs ''/app/ui/src/pages/node_modules'' = Inr [''x.js'']"
proof -
  have h1: "(0::int) < 4" by simp
  have h2: "stat demo_fs (os_path_join ''/app'' ''ui/src/pages/node_modules'') = Inr dir_stat"
    by code_simp
  have h3: "target_basename ''/app'' ''ui/src/pages/node_modules'' \<in> set excluded_dirs"
    by code_simp
  have e1: "target_basename ''/app'' ''ui/src/pages/node_modules'' = ''node_modules''"
    by code_simp
  have e2: "path_or_root ''ui/src/pages/node_modules'' = ''ui/src/pages/node_modules''"
    by code_simp
  have e3: "st_mtime dir_stat = 1700000000" by code_simp
  have e4: "listdir demo_fs ''/app/ui/src/pages/node_modules'' = Inr [''x.js'']" by code_simp
  show ?thesis
    using excluded_target_placeholder [OF h1 h2 h3, of "[]"] e4
    by (simp only: e1 e2 e3 simp_thms)
qed

text \<open>
  C9. The excluded-name check comes before the test for a directory: a regular file
  with an excluded basename is returned as a node of type directory with size 0 and an
  empty list of children. Its size is not read (the result does not depend on
  \<open>st_size\<close>), the call leaves the file map as it was, and the loop of the parent
  directory appends the node to the children and goes on with the same total and the
  same file map.
\<close>

theorem excluded_file_reported_as_directory:
  assumes "0 < max_depth"
    and "stat f (os_path_join base_path current_path) = Inr st"
    and "\<not> st_isdir st"
    and "target_basename base_path current_path \<in> set excluded_dirs"
  shows "scan_directory f base_path current_path max_depth all_files_map =
           (Inr (Some (FileNode (target_basename base_path current_path)
                         (path_or_root current_path) ''directory'' 0 (Some (st_mtime st))
                         (Some []) None None)),
            all_files_map)
         \<and> (\<forall>dir item items children_list total_size.
               current_path = os_path_join dir item \<longrightarrow>
               scan_items f base_path dir (max_depth + 1) (item # items) children_list
                 total_size all_files_map =
               scan_items f base_path dir (max_depth + 1) items
                 (children_list
                    @ [FileNode (target_basename base_path current_path)
                         (path_or_root current_path) ''directory'' 0 (Some (st_mtime st))
                         (Some []) None None])
                 total_size all_files_map)"
proof (intro conjI allI impI)
  show "scan_directory f base_path current_path max_depth all_files_map =
           (Inr (Some (FileNode (target_basename base_path current_path)
                         (path_or_root current_path) ''directory'' 0 (Some (st_mtime st))
                         (Some []) None None)),
            all_files_map)"
    using assms(1,2,4) by (rule scan_directory_excluded)
next
  fix dir item items children_list total_size
  assume cp: "current_path = os_path_join dir item"
  have "scan_directory f base_path (os_path_join dir item) (max_depth + 1 - 1) all_files_map =
           (Inr (Some (FileNode (target_basename base_path current_path)
                         (path_or_root current_path) ''directory'' 0 (Some (st_mtime st))
                         (Some []) None None)),
            all_files_map)"
    using scan_directory_excluded [OF assms(1,2,4)] cp by simp
  then show "scan_items f base_path dir (max_depth + 1) (item # items) children_list
                 total_size all_files_map =
               scan_items f base_path dir (max_depth + 1) items
                 (children_list
                    @ [FileNode (target_basename base_path current_path)
                         (path_or_root current_path) ''directory'' 0 (Some (st_mtime st))
                         (Some []) None None])
                 total_size all_files_map"
    by simp
qed

text \<open>
  The regular file \<^verbatim>\<open>build\<close> of the example, 7 bytes long: first the call, then
  the loop of its parent, which registers nothing for it.
\<close>

theorem excluded_file_reported_as_directory_witness:
  "\<not> st_isdir (file_stat 7)
   \<and> scan_directory demo_fs ''/app'' ''ui/src/pages/build'' 4 [] =
       (Inr (Some (FileNode ''build'' ''ui/src/pages/build'' ''directory'' 0
                     (Some 1700000001) (Some []) None None)), [])
   \<and> scan_items demo_fs ''/app'' ''ui/src/pages'' 5 [''build''] [] 0 [] =
       ((None, [FileNode ''build'' ''ui/src/pages/build'' ''directory'' 0
                  (Some 1700000001) (Some []) None None], 0), [])"
proof -
  have h1: "(0::int) < 4" by simp
  have h2: "stat demo_fs (os_path_join ''/app'' ''ui/src/pages/build'') = Inr (file_stat 7)"
    by code_simp
  have h3: "\<not> st_isdir (file_stat 7)" by code_simp
  have h4: "target_basename ''/app'' ''ui/src/pages/build'' \<in> set excluded_dirs"
    by code_simp
  have e1: "target_basename ''/app'' ''ui/src/pages/build'' = ''build''" by code_simp
  have e2: "path_or_root ''ui/src/pages/build'' = ''ui/src/pages/build''" by code_simp
  have e3: "st_mtime (file_stat 7) = 1700000001" by code_simp
  have e4: "''ui/src/pages/build'' = os_path_join ''ui/src/pages'' ''build''" by code_simp
  have e5: "(4::int) + 1 = 5" by simp
  note t = excluded_file_reported_as_directory [OF h1 h2 h3 h4, of "[]"]
  from t have a: "scan_directory demo_fs ''/app'' ''ui/src/pages/build'' 4 [] =
       (Inr (Some (FileNode ''build'' ''ui/src/pages/build'' ''directory'' 0
                     (Some 1700000001) (Some []) None None)), [])"
    by (simp only: e1 e2 e3)
  from t e4 have "scan_items demo_fs ''/app'' ''ui/src/pages'' (4 + 1) (''build'' # []) [] 0 [] =
      scan_items demo_fs ''/app'' ''ui/src/pages'' (4 + 1) []
        ([] @ [FileNode (target_basename ''/app'' ''ui/src/pages/build'')
                (path_or_root ''ui/src/pages/build'') ''directory'' 0
                (Some (st_mtime (file_stat 7))) (Some []) None None]) 0 []"
    by blast
  then have b: "scan_items demo_fs ''/app'' ''ui/src/pages'' 5 [''build''] [] 0 [] =
       ((None, [FileNode ''build'' ''ui/src/pages/build'' ''directory'' 0
                  (Some 1700000001) (Some []) None None], 0), [])"
    by (simp add: e1 e2 e3)
  show ?thesis using h3 a b by simp
qed

section \<open>Properties of import extraction\<close>

text \<open>
  C1. For the path \<^verbatim>\<open>a.py\<close> and the content
  \<^verbatim>\<open>from app.apis.codebase import scan_codebase\<close> the code returns two entries,
  not one: the pattern for \<^verbatim>\<open>import X\<close> also matches the tail of the
  \<^verbatim>\<open>from\<close> statement and reports the imported name as a module; the entry of
  kind \<^verbatim>\<open>from\<close> with the internal API path comes second.
\<close>

theorem extract_imports_from_scenario:
  "extract_imports ''a.py'' ''from app.apis.codebase import scan_codebase'' default_root_path =
     [\<lparr>imp_path = ''scan_codebase'', imp_type = ''module''\<rparr>,
      \<lparr>imp_path = ''/src/app/apis/codebase'', imp_type = ''from''\<rparr>]"
  by code_simp


lemma startswith_excl:
  "startswith p ''./'' \<Longrightarrow> \<not> startswith p ''../''"
  by (auto simp: startswith_def prefix_def)






text \<open>
  The test of the code for a path under the root compares characters only. An import
  of the JavaScript family that climbs out of the root \<^verbatim>\<open>/app\<close> into the sibling
  directory \<^verbatim>\<open>/app2\<close> passes it, and the entry is neither the import as written nor
  a path relative to the root.
\<close>

lemma root_prefix_without_separator:
  "os_path_normpath (os_path_join ''/app/ui/src/pages'' ''../../../../app2/x'') = ''/app2/x''
   \<and> \<not> under_root ''/app'' ''/app2/x''
   \<and> js_import_info ''ui/src/pages/App.tsx'' ''/app'' ''module'' ''../../../../app2/x''
       = \<lparr>imp_path = ''2/x'', imp_type = ''module''\<rparr>"
  by code_simp

section \<open>Properties of the endpoints\<close>

lemma scan_raises:
  "scan_response f = Inl e \<Longrightarrow>
   scan_codebase f store
     = (Inl (HTTPException 500 (''Error scanning codebase: '' @ str_exn e)), store)"
  by (simp add: scan_codebase_def)

lemma scan_succeeds:
  "scan_response f = Inr response \<Longrightarrow>
   scan_codebase f store
     = (Inr response, store(snapshot_key \<mapsto> response_dict response))"
  by (simp add: scan_codebase_def storage_put_def)

text \<open>
  C4. When the scan fails, the store is what it was before the call, and so is the
  snapshot under the key: the one write of the handler comes after the structure, the
  stats and the links have been computed.
\<close>

theorem failed_scan_keeps_snapshot:
  assumes "fst (scan_codebase f store) = Inl e"
  shows "snd (scan_codebase f store) = store
         \<and> storage_get snapshot_key (snd (scan_codebase f store))
             = storage_get snapshot_key store"
  using assms by (auto simp: scan_codebase_def split: sum.splits)

lemma failing_fs_raises:
  "scan_response failing_fs = Inl (OtherException ''Input/output error'')"
  by code_simp

text \<open>Listing the pages directory raises: the scan answers with status 500.\<close>

theorem failed_scan_keeps_snapshot_witness:
  "fst (scan_codebase failing_fs old_store)
     = Inl (HTTPException 500 ''Error scanning codebase: Input/output error'')
   \<and> snd (scan_codebase failing_fs old_store) = old_store
   \<and> storage_get snapshot_key old_store = Some [(''links'', LinksField [])]"
proof -
  have h: "fst (scan_codebase failing_fs old_store)
             = Inl (HTTPException 500 ''Error scanning codebase: Input/output error'')"
    by (simp add: scan_raises failing_fs_raises)
  have k: "storage_get snapshot_key old_store = Some [(''links'', LinksField [])]"
    by (simp add: storage_get_def old_store_def)
  show ?thesis
    using failed_scan_keeps_snapshot [OF h] h k by simp
qed

text \<open>
  C5. With nothing stored under the key, the history endpoint returns the message
  object, as a value and not as an exception. A stored document (the test of the code
  is Python's truth value, so: a document that is not the empty dictionary) is returned
  as it is; in particular what a successful scan has just stored is returned as it is.
\<close>

theorem history_message_or_snapshot:
  "(storage_get snapshot_key store = None \<longrightarrow>
      get_codebase_history store
        = Inr (Message ''No codebase snapshot available. Please scan first.''))
   \<and> (storage_get snapshot_key store = Some doc \<and> doc \<noteq> [] \<longrightarrow>
        get_codebase_history store = Inr (Snapshot doc))
   \<and> (scan_codebase f store = (Inr response, store') \<longrightarrow>
        get_codebase_history store' = Inr (Snapshot (response_dict response)))"
  by (auto simp: get_codebase_history_def scan_codebase_def storage_get_def storage_put_def
        response_dict_def split: sum.splits)

lemma empty_fs_response: "scan_response empty_fs = Inr empty_response"
  by code_simp

text \<open>
  Before any scan, with an older document under the key, and right after the scan of
  the machine without project directories.
\<close>

theorem history_message_or_snapshot_witness:
  "get_codebase_history Map.empty
     = Inr (Message ''No codebase snapshot available. Please scan first.'')
   \<and> get_codebase_history old_store = Inr (Snapshot [(''links'', LinksField [])])
   \<and> get_codebase_history (snd (scan_codebase empty_fs Map.empty))
       = Inr (Snapshot (response_dict empty_response))"
proof -
  have h1: "storage_get snapshot_key Map.empty = None"
    by (simp add: storage_get_def)
  have h2: "storage_get snapshot_key old_store = Some [(''links'', LinksField [])]
            \<and> [(''links'', LinksField [])] \<noteq> []"
    by (simp add: storage_get_def old_store_def)
  have h3: "scan_codebase empty_fs Map.empty
              = (Inr empty_response, snd (scan_codebase empty_fs Map.empty))"
    by (simp add: scan_succeeds empty_fs_response)
  from h1 have a: "get_codebase_history Map.empty
     = Inr (Message ''No codebase snapshot available. Please scan first.'')"
    using history_message_or_snapshot [of Map.empty] by blast
  from h2 have b: "get_codebase_history old_store = Inr (Snapshot [(''links'', LinksField [])])"
    using history_message_or_snapshot [of old_store "[(''links'', LinksField [])]"] by blast
  from h3 have c: "get_codebase_history (snd (scan_codebase empty_fs Map.empty))
       = Inr (Snapshot (response_dict empty_response))"
    using history_message_or_snapshot
            [of Map.empty _ empty_fs empty_response "snd (scan_codebase empty_fs Map.empty)"]
    by blast
  show ?thesis using a b c by simp
qed

section \<open>Properties of the stats aggregator\<close>

lemma traverse_counts:
  "total_files (traverse n st) + total_directories (traverse n st)
     = total_files st + total_directories st + int (length (nodes n))"
  "total_files (traverse_children cs st) + total_directories (traverse_children cs st)
     = total_files st + total_directories st + int (length (nodes_list cs))"
  by (induction n st and cs st rule: traverse_traverse_children.induct)
     (simp_all add: Let_def split: option.splits)

lemma traverse_size:
  "total_size_bytes (traverse n st)
     = total_size_bytes st
       + sum_list (map node_size (filter (\<lambda>x. node_type x \<noteq> ''directory'') (nodes n)))"
  "total_size_bytes (traverse_children cs st)
     = total_size_bytes st
       + sum_list (map node_size (filter (\<lambda>x. node_type x \<noteq> ''directory'') (nodes_list cs)))"
  by (induction n st and cs st rule: traverse_traverse_children.induct)
     (simp_all add: Let_def split: option.splits)

text \<open>
  C3. For a tree in which every node is of type file or directory, the files and the
  directories counted add up to the number of nodes of the tree, the root included
  whatever its type, and the total size is the sum of the sizes of the file nodes.
\<close>

theorem calculate_stats_counts:
  assumes "\<forall>n \<in> set (nodes root). node_type n = ''file'' \<or> node_type n = ''directory''"
  shows "total_files (calculate_stats root) + total_directories (calculate_stats root)
           = int (length (nodes root))
         \<and> total_size_bytes (calculate_stats root)
           = sum_list (map node_size (filter (\<lambda>n. node_type n = ''file'') (nodes root)))"
proof -
  have "filter (\<lambda>x. node_type x \<noteq> ''directory'') (nodes root)
          = filter (\<lambda>n. node_type n = ''file'') (nodes root)"
    using assms by (intro filter_cong) auto
  then show ?thesis
    by (simp add: calculate_stats_def traverse_counts traverse_size)
qed

text \<open>The pages directory of the small project: one file of 120 bytes, three directories.\<close>

theorem calculate_stats_counts_witness:
  "length (nodes demo_pages) = 4
   \<and> total_files (calculate_stats demo_pages) + total_directories (calculate_stats demo_pages) = 4
   \<and> total_size_bytes (calculate_stats demo_pages) = 120"
proof -
  have h: "\<forall>n \<in> set (nodes demo_pages). node_type n = ''file'' \<or> node_type n = ''directory''"
    by code_simp
  have e1: "length (nodes demo_pages) = 4" by code_simp
  have e2: "sum_list (map node_size (filter (\<lambda>n. node_type n = ''file'') (nodes demo_pages)))
              = 120"
    by code_simp
  show ?thesis
    using calculate_stats_counts [OF h] e1 e2 by simp
qed

text \<open>
  Where no node other than a directory carries children, as in every tree the program
  builds, the nodes of the tree are all the nodes there are.
\<close>

lemma nodes_all_nodes:
  "(\<forall>n \<in> set (all_nodes root). node_type n \<noteq> ''directory'' \<longrightarrow> \<not> truthy (children n))
     \<Longrightarrow> nodes root = all_nodes root"
  "(\<forall>n \<in> set (all_nodes_list cs). node_type n \<noteq> ''directory'' \<longrightarrow> \<not> truthy (children n))
     \<Longrightarrow> nodes_list cs = all_nodes_list cs"
proof (induction root and cs rule: all_nodes_all_nodes_list.induct)
  case (1 name path type size_bytes mtime children_opt imports_opt lang)
  show ?case
  proof (cases children_opt)
    case None
    then show ?thesis by simp
  next
    case (Some cs)
    show ?thesis
    proof (cases "type = ''directory''")
      case True
      with Some 1 show ?thesis by simp
    next
      case False
      with Some "1.prems" have "cs = []" by simp
      with Some False show ?thesis by simp
    qed
  qed
next
  case 2
  then show ?case by simp
next
  case (3 child cs)
  then show ?case by simp
qed

section \<open>Properties of the tree walker: depth and sizes\<close>

lemma directory_node_Some:
  assumes "directory_node f fp name cp tot ch = Inr (Some n)"
  shows "\<exists>t. n = FileNode name (path_or_root cp) ''directory'' tot t (Some ch) None None"
  using assms by (auto simp: directory_node_def split: sum.splits)

lemma scan_file_Some:
  assumes "scan_file f b c fp name m = (Inr (Some n), m')"
  shows "node_type n = ''file'' \<and> children n = None"
  using assms
  by (auto simp: scan_file_def Let_def split: sum.splits if_splits)

lemma scan_directory_cases:
  assumes "scan_directory f b c d m = (Inr (Some n), m')"
  obtains
    (excluded) "0 < d"
      "directory_node f (os_path_join b c) (scan_name b c) c 0 [] = Inr (Some n)"
  | (unlisted) e where "0 < d" "listdir f (os_path_join b c) = Inl e"
      "directory_node f (os_path_join b c) (scan_name b c) c 0 [] = Inr (Some n)"
  | (listed) items raised ch tot where "0 < d"
      "os_path_exists f (os_path_join b c)"
      "scan_name b c \<notin> set excluded_dirs" "os_path_isdir f (os_path_join b c)"
      "listdir f (os_path_join b c) = Inr items"
      "scan_items f b c d (take max_items items) [] 0 m = ((raised, ch, tot), m')"
      "directory_node f (os_path_join b c) (scan_name b c) c tot ch = Inr (Some n)"
  | (regular) "0 < d" "\<not> os_path_isdir f (os_path_join b c)"
      "scan_file f b c (os_path_join b c) (scan_name b c) m = (Inr (Some n), m')"
  using assms
  apply (subst (asm) scan_directory.simps)
  apply (simp split: if_splits)
   apply (auto split: sum.splits prod.splits option.splits if_splits)
  done

lemma tree_depth_sel:
  "tree_depth n = 1 + (case children n of None \<Rightarrow> 0 | Some cs \<Rightarrow> tree_depth_list cs)"
  by (cases n) simp

lemma tree_depth_list_le:
  "(\<forall>x \<in> set cs. int (tree_depth x) \<le> k) \<Longrightarrow> 0 \<le> k \<Longrightarrow> int (tree_depth_list cs) \<le> k"
  by (induction cs) auto

lemma scan_depth:
  "scan_directory f b c d m = (Inr (Some n), m') \<Longrightarrow> int (tree_depth n) \<le> d"
  "scan_items f b c d items ch tot m = ((raised, ch', tot'), m') \<Longrightarrow>
     \<forall>x \<in> set ch. int (tree_depth x) \<le> d - 1 \<Longrightarrow>
     \<forall>x \<in> set ch'. int (tree_depth x) \<le> d - 1"
proof (induction f b c d m and f b c d items ch tot m
       arbitrary: n m' and raised ch' tot' m' rule: scan_directory_scan_items.induct)
  case (1 f b c d m)
  from "1.prems" show ?case
  proof (cases rule: scan_directory_cases)
    case excluded
    then show ?thesis
      by (auto dest!: directory_node_Some)
  next
    case (unlisted e)
    then show ?thesis
      by (auto dest!: directory_node_Some)
  next
    case (listed items raised ch tot)
    have nd: "\<not> d \<le> 0" using listed(1) by simp
    have ex: "\<not> \<not> os_path_exists f (os_path_join b c)" using listed(2) by simp
    have "\<forall>x \<in> set ch. int (tree_depth x) \<le> d - 1"
      using "1.IH" [OF nd ex listed(3,4,5,6)] by simp
    then have "int (tree_depth_list ch) \<le> d - 1"
      using listed(1) by (intro tree_depth_list_le) auto
    moreover obtain t where
      "n = FileNode (scan_name b c) (path_or_root c) ''directory'' tot t (Some ch) None None"
      using directory_node_Some [OF listed(7)] by blast
    ultimately show ?thesis by simp
  next
    case regular
    then show ?thesis
      by (auto dest!: scan_file_Some simp: tree_depth_sel)
  qed
next
  case (2 f b c d ch tot m)
  then show ?case by simp
next
  case (3 f b c d item items ch tot m)
  show ?case
  proof (cases "scan_directory f b (os_path_join c item) (d - 1) m")
    case (Pair x y)
    show ?thesis
    proof (cases x)
      case (Inl e)
      with Pair "3.prems" show ?thesis by simp
    next
      case (Inr r)
      show ?thesis
      proof (cases r)
        case None
        with Pair Inr "3.prems" "3.IH"(2) [OF Pair [symmetric] Inr None] show ?thesis
          by simp
      next
        case (Some child)
        have "int (tree_depth child) \<le> d - 1"
          using "3.IH"(1) Pair Inr Some by simp
        with Pair Inr Some "3.prems" "3.IH"(3) [OF Pair [symmetric] Inr Some] show ?thesis
          by simp
      qed
    qed
  qed
qed

lemma scan_terminates: "scan_directory_scan_items_dom x"
proof -
  have "All scan_directory_scan_items_dom"
    by (rule "scan_directory_scan_items.termination"
          [where R = "(\<lambda>x. case x of
                 Inl (f, base_path, current_path, max_depth, m) \<Rightarrow> 2 * nat max_depth
               | Inr (f, base_path, current_path, max_depth, items, r) \<Rightarrow>
                   2 * nat (max_depth - 1) + 1)
         <*mlex*>
         measure (\<lambda>x. case x of
                        Inl a \<Rightarrow> 0
                      | Inr (f, base_path, current_path, max_depth, items, r) \<Rightarrow> length items)"])
       (auto simp: wf_mlex mlex_less mlex_leq)
  then show ?thesis by simp
qed

text \<open>
  C10. The walker terminates on every input: every argument is in the domain of the
  recursion, whose calls from the loop pass \<open>max_depth - 1\<close> (the termination proof of
  the definition uses nothing but that and the length of the listing). A call with
  \<open>max_depth\<close> not above 0 returns nothing at once, and a returned tree has at most
  \<open>max_depth\<close> levels, whatever the file system answers.
\<close>

theorem scan_directory_terminates:
  "scan_directory_scan_items_dom (Inl (f, base_path, current_path, max_depth, all_files_map))
   \<and> (max_depth \<le> 0 \<longrightarrow>
        scan_directory f base_path current_path max_depth all_files_map
          = (Inr None, all_files_map))
   \<and> (scan_directory f base_path current_path max_depth all_files_map = (Inr (Some node), files)
        \<longrightarrow> int (tree_depth node) \<le> max_depth)"
proof (intro conjI impI)
  show "scan_directory_scan_items_dom
          (Inl (f, base_path, current_path, max_depth, all_files_map))"
    by (rule scan_terminates)
next
  assume "max_depth \<le> 0"
  then show "scan_directory f base_path current_path max_depth all_files_map
               = (Inr None, all_files_map)"
    by (subst scan_directory.simps) simp
next
  assume "scan_directory f base_path current_path max_depth all_files_map
            = (Inr (Some node), files)"
  then show "int (tree_depth node) \<le> max_depth"
    by (rule scan_depth(1))
qed

text \<open>
  On the file system without a bottom the walk with the default depth stops after five
  levels.
\<close>

theorem scan_directory_terminates_witness:
  "scan_directory loop_fs ''/app'' [] 0 [] = (Inr None, [])
   \<and> scan_directory loop_fs ''/app'' [] default_max_depth [] = (Inr (Some loop_tree), [])
   \<and> tree_depth loop_tree = 5"
proof -
  have h1: "(0::int) \<le> 0" by simp
  have h2: "scan_directory loop_fs ''/app'' [] default_max_depth []
              = (Inr (Some loop_tree), [])"
    by code_simp
  have e: "tree_depth loop_tree = 5" by code_simp
  have a: "scan_directory loop_fs ''/app'' [] 0 [] = (Inr None, [])"
    using scan_directory_terminates [of loop_fs "''/app''" "[]" 0 "[]"] h1 by blast
  have "int (tree_depth loop_tree) \<le> default_max_depth"
    using scan_directory_terminates
            [of loop_fs "''/app''" "[]" default_max_depth "[]" loop_tree "[]"] h2
    by blast
  then show ?thesis using a h2 e by simp
qed

lemma sizes_consistent_sel:
  "sizes_consistent n =
     ((if node_type n = ''directory'' then node_size n = children_size (children n) else True)
      \<and> (case children n of None \<Rightarrow> True | Some cs \<Rightarrow> sizes_consistent_list cs))"
  by (cases n) simp

lemma sizes_consistent_list_snoc:
  "sizes_consistent_list (xs @ [x]) = (sizes_consistent_list xs \<and> sizes_consistent x)"
  by (induction xs) auto

lemma scan_sizes:
  "scan_directory f b c d m = (Inr (Some n), m') \<Longrightarrow> sizes_consistent n"
  "scan_items f b c d items ch tot m = ((raised, ch', tot'), m') \<Longrightarrow>
     sizes_consistent_list ch \<Longrightarrow> tot = sum_list (map node_size ch) \<Longrightarrow>
     sizes_consistent_list ch' \<and> tot' = sum_list (map node_size ch')"
proof (induction f b c d m and f b c d items ch tot m
       arbitrary: n m' and raised ch' tot' m' rule: scan_directory_scan_items.induct)
  case (1 f b c d m)
  from "1.prems" show ?case
  proof (cases rule: scan_directory_cases)
    case excluded
    then show ?thesis
      by (auto dest!: directory_node_Some simp: children_size_def)
  next
    case (unlisted e)
    then show ?thesis
      by (auto dest!: directory_node_Some simp: children_size_def)
  next
    case (listed items raised ch tot)
    have nd: "\<not> d \<le> 0" using listed(1) by simp
    have ex: "\<not> \<not> os_path_exists f (os_path_join b c)" using listed(2) by simp
    have "sizes_consistent_list ch \<and> tot = sum_list (map node_size ch)"
      using "1.IH" [OF nd ex listed(3,4,5,6)] by simp
    moreover obtain t where
      "n = FileNode (scan_name b c) (path_or_root c) ''directory'' tot t (Some ch) None None"
      using directory_node_Some [OF listed(7)] by blast
    ultimately show ?thesis by (simp add: children_size_def)
  next
    case regular
    then show ?thesis
      by (auto dest!: scan_file_Some simp: sizes_consistent_sel)
  qed
next
  case (2 f b c d ch tot m)
  then show ?case by auto
next
  case (3 f b c d item items ch tot m)
  show ?case
  proof (cases "scan_directory f b (os_path_join c item) (d - 1) m")
    case (Pair x y)
    show ?thesis
    proof (cases x)
      case (Inl e)
      with Pair "3.prems" show ?thesis by auto
    next
      case (Inr r)
      show ?thesis
      proof (cases r)
        case None
        with Pair Inr "3.prems" "3.IH"(2) [OF Pair [symmetric] Inr None] show ?thesis
          by simp
      next
        case (Some child)
        have child: "sizes_consistent child"
          using "3.IH"(1) Pair Inr Some by simp
        have run: "scan_items f b c d items (ch @ [child])
                     (if node_size child \<noteq> 0 then tot + node_size child else tot)
                     (if node_type child = ''file''
                      then AList.update (node_path child) child y else y)
                   = ((raised, ch', tot'), m')"
          using "3.prems"(1) Pair Inr Some by simp
        have a: "sizes_consistent_list (ch @ [child])"
          using "3.prems"(2) child by (simp add: sizes_consistent_list_snoc)
        have b: "(if node_size child \<noteq> 0 then tot + node_size child else tot)
                   = sum_list (map node_size (ch @ [child]))"
          using "3.prems"(3) by simp
        show ?thesis
          using "3.IH"(3) [OF Pair [symmetric] Inr Some run a b] .
      qed
    qed
  qed
qed


section \<open>Properties of the scan endpoint: sizes\<close>

lemma scan_directory_dir_type:
  assumes "scan_directory f b c d m = (Inr (Some n), m')"
    and "os_path_isdir f (os_path_join b c)"
  shows "node_type n = ''directory''"
  using assms(1)
proof (cases rule: scan_directory_cases)
  case regular
  with assms(2) show ?thesis by simp
qed (auto dest!: directory_node_Some)

lemma map_fst_map_entry: "map fst (AList.map_entry k h xs) = map fst xs"
  by (induction xs) auto

lemma sum_map_entry:
  "distinct (map fst xs) \<Longrightarrow> (k, c) \<in> set xs \<Longrightarrow>
   sum_list (map (\<lambda>p. g (snd p)) (AList.map_entry k h xs))
     = sum_list (map (\<lambda>p. g (snd p)) xs) - g c + (g (h c) :: int)"
  by (induction xs) (auto simp: rev_image_eqI)

lemma set_map_entry:
  "(k', c') \<in> set (AList.map_entry k h xs) \<Longrightarrow>
   (k', c') \<in> set xs \<or> (k' = k \<and> (\<exists>c. (k, c) \<in> set xs \<and> c' = h c))"
  by (induction xs) (auto split: if_splits)

lemma map_entry_other:
  "(k', c') \<in> set (AList.map_entry k h xs) \<Longrightarrow> k' \<noteq> k \<Longrightarrow> (k', c') \<in> set xs"
  by (induction xs) (auto split: if_splits)


lemma falsy_size_zero:
  assumes "node_type c = ''directory''" "sizes_consistent c" "\<not> truthy (children c)"
  shows "node_size c = 0"
  using assms by (cases "children c") (auto simp: sizes_consistent_sel children_size_def)

lemma take_over_ok:
  assumes "node_type c = ''directory''" "node_type n = ''directory''" "sizes_consistent n"
  shows "node_type (take_over n c) = ''directory'' \<and> sizes_consistent (take_over n c)
         \<and> node_size (take_over n c) = node_size n"
  using assms by (auto simp: take_over_def sizes_consistent_sel)

lemma scan_categories_ok:
  assumes "scan_categories f rest cats ssize m = Inr (cats', ssize', m')"
    and "distinct (map fst cats)" and "distinct (map fst rest)"
    and "set (map fst rest) \<subseteq> set (map fst cats)"
    and "\<forall>(k, c) \<in> set cats. k \<in> set (map fst rest) \<longrightarrow> node_size c = 0"
    and "cats_ok cats ssize"
  shows "cats_ok cats' ssize'"
  using assms
proof (induction f rest cats ssize m rule: scan_categories.induct)
  case (1 f categories structure_size all_files_map)
  then show ?case by simp
next
  case (2 f category path rest categories structure_size all_files_map)
  show ?case
  proof (cases "os_path_exists f (os_path_join base_path_app path)
         \<and> os_path_isdir f (os_path_join base_path_app path)")
    case False
    then have run: "scan_categories f rest categories structure_size all_files_map
                      = Inr (cats', ssize', m')"
      using "2.prems"(1) by auto
    show ?thesis
      using "2.IH"(3) [OF False run] "2.prems"(2-6) by auto
  next
    case True
    obtain x files where scan:
      "scan_directory f base_path_app path default_max_depth all_files_map = (x, files)"
      by (cases "scan_directory f base_path_app path default_max_depth all_files_map")
    show ?thesis
    proof (cases x)
      case (Inl e)
      with True scan "2.prems"(1) show ?thesis by simp
    next
      case (Inr r)
      show ?thesis
      proof (cases r)
        case None
        then have run: "scan_categories f rest categories structure_size files
                          = Inr (cats', ssize', m')"
          using "2.prems"(1) True scan Inr by simp
        show ?thesis
          using "2.IH"(1) [OF True scan [symmetric] Inr None run] "2.prems"(2-6) by auto
      next
        case (Some node)
        let ?cats = "AList.map_entry category (take_over node) categories"
        have run: "scan_categories f rest ?cats (structure_size + node_size node) files
                     = Inr (cats', ssize', m')"
          using "2.prems"(1) True scan Inr Some by simp
        have nd: "node_type node = ''directory''"
          using scan Inr Some True scan_directory_dir_type by blast
        have nc: "sizes_consistent node"
          using scan Inr Some scan_sizes(1) by blast
        obtain c where c: "(category, c) \<in> set categories"
          using "2.prems"(4) by auto
        have c0: "node_size c = 0" and cd: "node_type c = ''directory''"
          using c "2.prems"(5,6) by (auto simp: cats_ok_def)
        have a: "distinct (map fst ?cats)"
          using "2.prems"(2) by (simp add: map_fst_map_entry)
        have b: "distinct (map fst rest)"
          using "2.prems"(3) by simp
        have s: "set (map fst rest) \<subseteq> set (map fst ?cats)"
          using "2.prems"(4) by (simp add: map_fst_map_entry)
        have z: "\<forall>(k, c) \<in> set ?cats. k \<in> set (map fst rest) \<longrightarrow> node_size c = 0"
        proof (clarify)
          fix k c' assume "(k, c') \<in> set ?cats" "k \<in> set (map fst rest)"
          moreover have "k \<noteq> category" using \<open>k \<in> set (map fst rest)\<close> "2.prems"(3) by auto
          ultimately have "(k, c') \<in> set categories" by (auto dest: map_entry_other)
          then show "node_size c' = 0"
            using "2.prems"(5) \<open>k \<in> set (map fst rest)\<close> by auto
        qed
        have sum: "sum_list (map (\<lambda>p. node_size (snd p)) ?cats)
                     = sum_list (map (\<lambda>p. node_size (snd p)) categories) - node_size c
                       + node_size (take_over node c)"
          using sum_map_entry [OF "2.prems"(2) c, of node_size "take_over node"] .
        have all: "\<forall>(k, c) \<in> set ?cats. node_type c = ''directory'' \<and> sizes_consistent c"
        proof (clarify)
          fix k c' assume "(k, c') \<in> set ?cats"
          then consider "(k, c') \<in> set categories"
            | c2 where "(category, c2) \<in> set categories" "c' = take_over node c2"
            by (auto dest: set_map_entry)
          then show "node_type c' = ''directory'' \<and> sizes_consistent c'"
          proof cases
            case 1
            then show ?thesis using "2.prems"(6) by (auto simp: cats_ok_def)
          next
            case 2
            then have "node_type c2 = ''directory''"
              using "2.prems"(6) by (auto simp: cats_ok_def)
            then show ?thesis using 2 take_over_ok [OF _ nd nc] by simp
          qed
        qed
        have ok: "cats_ok ?cats (structure_size + node_size node)"
          using sum all c0 "2.prems"(6) take_over_ok [OF cd nd nc]
          by (simp add: cats_ok_def)
        show ?thesis
          using "2.IH"(2) [OF True scan [symmetric] Inr Some run a b s z ok] .
      qed
    qed
  qed
qed

lemma initial_categories_ok: "cats_ok initial_categories 0"
  by (simp add: cats_ok_def initial_categories_def category_node_def children_size_def)

lemma map_entry_names:
  "map (\<lambda>p. node_name (snd p)) (AList.map_entry k (take_over node) xs)
     = map (\<lambda>p. node_name (snd p)) xs"
  by (induction xs) (auto simp: take_over_def)

lemma map_entry_absent: "k \<notin> fst ` set ys \<Longrightarrow> AList.map_entry k h ys = ys"
  by (induction ys) auto

lemma map_entry_append:
  "k \<notin> fst ` set ys \<Longrightarrow> AList.map_entry k h (xs @ ys) = AList.map_entry k h xs @ ys"
  by (induction xs) (auto simp: map_entry_absent)

text \<open>
  The walk of the categories rewrites only the entries it names: a tail of the
  category list that it does not name stays as it is, and the names of the nodes do
  not change.
\<close>

lemma scan_categories_suffix:
  assumes "scan_categories f rest cats ssize m = Inr (cats', ssize', m')"
    and "cats = pre @ post"
    and "set (map fst rest) \<inter> fst ` set post = {}"
  shows "\<exists>pre'. cats' = pre' @ post
            \<and> map (\<lambda>p. node_name (snd p)) pre' = map (\<lambda>p. node_name (snd p)) pre"
  using assms
proof (induction f rest cats ssize m arbitrary: pre rule: scan_categories.induct)
  case (1 f categories structure_size all_files_map)
  then show ?case by auto
next
  case (2 f category path rest categories structure_size all_files_map)
  have rest: "set (map fst rest) \<inter> fst ` set post = {}"
    using "2.prems"(3) by auto
  have cat: "category \<notin> fst ` set post"
    using "2.prems"(3) by auto
  show ?case
  proof (cases "os_path_exists f (os_path_join base_path_app path)
         \<and> os_path_isdir f (os_path_join base_path_app path)")
    case False
    then have run: "scan_categories f rest categories structure_size all_files_map
                      = Inr (cats', ssize', m')"
      using "2.prems"(1) by auto
    show ?thesis
      using "2.IH"(3) [OF False run "2.prems"(2) rest] .
  next
    case True
    obtain x files where scan:
      "scan_directory f base_path_app path default_max_depth all_files_map = (x, files)"
      by (cases "scan_directory f base_path_app path default_max_depth all_files_map")
    show ?thesis
    proof (cases x)
      case (Inl e)
      with True scan "2.prems"(1) show ?thesis by simp
    next
      case (Inr r)
      show ?thesis
      proof (cases r)
        case None
        then have run: "scan_categories f rest categories structure_size files
                          = Inr (cats', ssize', m')"
          using "2.prems"(1) True scan Inr by simp
        show ?thesis
          using "2.IH"(1) [OF True scan [symmetric] Inr None run "2.prems"(2) rest] .
      next
        case (Some node)
        let ?pre = "AList.map_entry category (take_over node) pre"
        have run: "scan_categories f rest
                     (AList.map_entry category (take_over node) categories)
                     (structure_size + node_size node) files
                     = Inr (cats', ssize', m')"
          using "2.prems"(1) True scan Inr Some by simp
        have split: "AList.map_entry category (take_over node) categories = ?pre @ post"
          using "2.prems"(2) cat by (simp add: map_entry_append)
        obtain pre' where "cats' = pre' @ post"
          and "map (\<lambda>p. node_name (snd p)) pre' = map (\<lambda>p. node_name (snd p)) ?pre"
          using "2.IH"(2) [OF True scan [symmetric] Inr Some run split rest] by blast
        then show ?thesis by (auto simp: map_entry_names)
      qed
    qed
  qed
qed

lemma add_categories_append:
  "add_categories (xs @ ys) acc = add_categories ys (add_categories xs acc)"
  by (induction xs arbitrary: acc) auto

lemma add_categories_plain:
  "\<forall>c \<in> set cs. node_name c \<notin> set [''Media (Public)'', ''Internal Storage'']
     \<Longrightarrow> add_categories cs acc = acc @ filter (\<lambda>c. truthy (children c)) cs"
  by (induction cs arbitrary: acc) auto

lemma sum_truthy:
  "\<forall>c \<in> set cs. node_type c = ''directory'' \<and> sizes_consistent c
     \<Longrightarrow> sum_list (map node_size (filter (\<lambda>c. truthy (children c)) cs))
           = sum_list (map node_size cs)"
  by (induction cs) (auto simp: falsy_size_zero)

lemma add_placeholders:
  "add_categories [category_node ''Media (Public)'' ''/static-assets'',
                   category_node ''Internal Storage'' ''/storage''] acc
     = acc @ [media_placeholder, storage_placeholder]"
  by (simp add: category_node_def simple_node_def media_placeholder_def
        storage_placeholder_def)

text \<open>
  The children of the root of an answer: the categories that were walked and have
  children, in the order of the category list, then the two placeholder categories.
\<close>

lemma scan_response_structure:
  assumes "scan_response f = Inr r"
  shows "\<exists>scanned. children (structure r)
                       = Some (scanned @ [media_placeholder, storage_placeholder])
              \<and> (\<forall>c \<in> set scanned.
                    sizes_consistent c
                    \<and> node_name c \<in> set [''Pages'', ''UI Components'', ''UI Files'', ''APIs''])
              \<and> node_size (structure r)
                  = sum_list (map node_size
                               (scanned @ [media_placeholder, storage_placeholder]))"
proof -
  let ?pre = "[(''Pages'', category_node ''Pages'' ''/ui/src/pages''),
      (''UI Components'', category_node ''UI Components'' ''/ui/src/components''),
      (''UI Files'', category_node ''UI Files'' ''/ui/src/utils''),
      (''APIs'', category_node ''APIs'' ''/src/app/apis'')]"
  let ?post = "[(''Media'', category_node ''Media (Public)'' ''/static-assets''),
      (''Storage'', category_node ''Internal Storage'' ''/storage'')]"
  obtain cats ssize m where sc:
    "scan_categories f category_paths initial_categories 0 [] = Inr (cats, ssize, m)"
    using assms by (auto simp: scan_response_def split: sum.splits)
  have ok: "cats_ok cats ssize"
    by (rule scan_categories_ok [OF sc _ _ _ _ initial_categories_ok])
       (simp_all add: initial_categories_def category_paths_def category_node_def)
  have init: "initial_categories = ?pre @ ?post"
    by (simp add: initial_categories_def)
  have disj: "set (map fst category_paths) \<inter> fst ` set ?post = {}"
    by (simp add: category_paths_def)
  obtain pre' where cats: "cats = pre' @ ?post"
    and names: "map (\<lambda>p. node_name (snd p)) pre' = map (\<lambda>p. node_name (snd p)) ?pre"
    using scan_categories_suffix [OF sc init disj] by blast
  let ?scanned = "filter (\<lambda>c. truthy (children c)) (map snd pre')"
  have nm: "map (\<lambda>p. node_name (snd p)) pre'
              = [''Pages'', ''UI Components'', ''UI Files'', ''APIs'']"
    unfolding names by (simp add: category_node_def)
  have named: "\<forall>c \<in> set (map snd pre').
                 node_name c \<in> set [''Pages'', ''UI Components'', ''UI Files'', ''APIs'']"
  proof
    fix c assume "c \<in> set (map snd pre')"
    then have "node_name c \<in> set (map (\<lambda>p. node_name (snd p)) pre')"
      by force
    then show "node_name c \<in> set [''Pages'', ''UI Components'', ''UI Files'', ''APIs'']"
      unfolding nm .
  qed
  have plain: "\<forall>c \<in> set (map snd pre').
                 node_name c \<notin> set [''Media (Public)'', ''Internal Storage'']"
  proof
    fix c assume "c \<in> set (map snd pre')"
    then have "node_name c \<in> set [''Pages'', ''UI Components'', ''UI Files'', ''APIs'']"
      using named by blast
    then show "node_name c \<notin> set [''Media (Public)'', ''Internal Storage'']"
      by auto
  qed
  have all: "\<forall>c \<in> set (map snd pre'). node_type c = ''directory'' \<and> sizes_consistent c"
    using ok unfolding cats cats_ok_def by force
  have "add_categories (map snd cats) []
          = add_categories (map snd ?post) (add_categories (map snd pre') [])"
    unfolding cats by (simp only: map_append add_categories_append)
  also have "\<dots> = add_categories (map snd ?post) ?scanned"
    using add_categories_plain [OF plain, of "[]"] by (simp only: append_Nil)
  also have "\<dots> = ?scanned @ [media_placeholder, storage_placeholder]"
    using add_placeholders [of ?scanned] by (simp only: list.map snd_conv)
  finally have ch: "add_categories (map snd cats) []
                      = ?scanned @ [media_placeholder, storage_placeholder]" .
  have r: "structure r = FileNode ''Taskflow App'' ''/'' ''directory'' ssize None
                          (Some (add_categories (map snd cats) [])) None None"
    using assms sc by (auto simp: scan_response_def Let_def split: if_splits)
  have "ssize = sum_list (map (\<lambda>p. node_size (snd p)) (pre' @ ?post))"
    using ok unfolding cats cats_ok_def by blast
  also have "\<dots> = sum_list (map node_size (map snd pre'))"
    by (simp add: category_node_def comp_def)
  also have "\<dots> = sum_list (map node_size ?scanned)"
    using sum_truthy [OF all] by simp
  also have "\<dots> = sum_list (map node_size
                               (?scanned @ [media_placeholder, storage_placeholder]))"
    by (simp add: media_placeholder_def storage_placeholder_def)
  finally have sz: "ssize = sum_list (map node_size
                               (?scanned @ [media_placeholder, storage_placeholder]))" .
  have cons: "\<forall>c \<in> set ?scanned.
                sizes_consistent c
                \<and> node_name c \<in> set [''Pages'', ''UI Components'', ''UI Files'', ''APIs'']"
  proof
    fix c assume "c \<in> set ?scanned"
    then have c: "c \<in> set (map snd pre')" by simp
    show "sizes_consistent c
          \<and> node_name c \<in> set [''Pages'', ''UI Components'', ''UI Files'', ''APIs'']"
      using all named c by blast
  qed
  have "children (structure r) = Some (?scanned @ [media_placeholder, storage_placeholder])"
    unfolding r ch by simp
  moreover have "node_size (structure r)
                  = sum_list (map node_size
                               (?scanned @ [media_placeholder, storage_placeholder]))"
    unfolding r using sz by simp
  ultimately show ?thesis using cons by blast
qed

lemma scan_codebase_response:
  "fst (scan_codebase f store) = Inr response \<Longrightarrow> scan_response f = Inr response"
  by (auto simp: scan_codebase_def split: sum.splits)

text \<open>
  C2, as the code has it. In every tree that \<open>scan_directory\<close> returns, each
  directory node has as size the sum of the sizes of its immediate children. In the
  structure that the scan endpoint returns, the children of the root are the nodes of
  the scanned categories (Pages, UI Components, UI Files, APIs), followed by the two
  placeholder categories (Media, Storage). The root has as size the sum of the sizes
  of its children, and so has every directory node of a scanned category, at any
  level. The two placeholder categories have not: on every scan each of them has
  size 0 and one placeholder child of size 100.
\<close>

theorem directory_sizes_consistent:
  "(scan_directory f base_path current_path max_depth all_files_map = (Inr (Some node), files)
      \<longrightarrow> sizes_consistent node)
   \<and> (fst (scan_codebase g store) = Inr response \<longrightarrow>
        (\<exists>scanned.
           children (structure response)
             = Some (scanned @ [media_placeholder, storage_placeholder])
           \<and> (\<forall>c \<in> set scanned.
                 sizes_consistent c
                 \<and> node_name c \<in> set [''Pages'', ''UI Components'', ''UI Files'', ''APIs''])
           \<and> node_size (structure response)
               = sum_list (map node_size
                            (scanned @ [media_placeholder, storage_placeholder]))))
   \<and> node_type media_placeholder = ''directory''
   \<and> node_size media_placeholder = 0
   \<and> map_option (map node_size) (children media_placeholder) = Some [100]
   \<and> node_type storage_placeholder = ''directory''
   \<and> node_size storage_placeholder = 0
   \<and> map_option (map node_size) (children storage_placeholder) = Some [100]"
proof (intro conjI impI)
  assume "scan_directory f base_path current_path max_depth all_files_map
            = (Inr (Some node), files)"
  then show "sizes_consistent node" by (rule scan_sizes(1))
next
  assume "fst (scan_codebase g store) = Inr response"
  then have "scan_response g = Inr response" by (rule scan_codebase_response)
  then show "\<exists>scanned.
           children (structure response)
             = Some (scanned @ [media_placeholder, storage_placeholder])
           \<and> (\<forall>c \<in> set scanned.
                 sizes_consistent c
                 \<and> node_name c \<in> set [''Pages'', ''UI Components'', ''UI Files'', ''APIs''])
           \<and> node_size (structure response)
               = sum_list (map node_size
                            (scanned @ [media_placeholder, storage_placeholder]))"
    by (rule scan_response_structure)
qed (simp_all add: media_placeholder_def storage_placeholder_def)

lemma demo_pages_scan:
  "scan_directory demo_fs ''/app'' ''ui/src/pages'' default_max_depth []
     = (Inr (Some demo_pages), demo_files)"
  by code_simp

lemma empty_fs_scan: "fst (scan_codebase empty_fs Map.empty) = Inr empty_response"
  by (simp add: scan_succeeds empty_fs_response)

lemma demo_fs_response: "scan_response demo_fs = Inr demo_response"
  by code_simp

lemma demo_fs_scan: "fst (scan_codebase demo_fs Map.empty) = Inr demo_response"
  by (simp add: scan_succeeds demo_fs_response)

text \<open>
  The pages directory of the small project, and the answer of the scan endpoint for
  the small project: the nodes of the two categories that exist are consistent, and
  the root has size 164, the sum over its four children (120, 44, 0 and 0).
\<close>

theorem directory_sizes_consistent_witness:
  "sizes_consistent demo_pages
   \<and> sizes_consistent (take_over demo_pages (category_node ''Pages'' ''/ui/src/pages''))
   \<and> sizes_consistent demo_apis
   \<and> children (structure demo_response)
       = Some [take_over demo_pages (category_node ''Pages'' ''/ui/src/pages''), demo_apis,
               media_placeholder, storage_placeholder]
   \<and> node_size (structure demo_response) = 164
   \<and> children_size (children (structure demo_response)) = 164"
proof -
  have a: "sizes_consistent demo_pages"
    using directory_sizes_consistent
            [of demo_fs "''/app''" "''ui/src/pages''" default_max_depth "[]" demo_pages
                demo_files]
          demo_pages_scan
    by blast
  obtain scanned where c: "children (structure demo_response)
                             = Some (scanned @ [media_placeholder, storage_placeholder])"
    and k: "\<forall>c \<in> set scanned. sizes_consistent c
              \<and> node_name c \<in> set [''Pages'', ''UI Components'', ''UI Files'', ''APIs'']"
    and z: "node_size (structure demo_response)
              = sum_list (map node_size (scanned @ [media_placeholder, storage_placeholder]))"
    using directory_sizes_consistent [of _ _ _ _ _ _ _ demo_fs Map.empty demo_response]
          demo_fs_scan
    by blast
  have ch: "children (structure demo_response)
          = Some ([take_over demo_pages (category_node ''Pages'' ''/ui/src/pages''), demo_apis]
                    @ [media_placeholder, storage_placeholder])"
    by (simp add: demo_response_def demo_root_def)
  with c have s: "scanned
                    = [take_over demo_pages (category_node ''Pages'' ''/ui/src/pages''), demo_apis]"
    by simp
  have b: "sizes_consistent (take_over demo_pages (category_node ''Pages'' ''/ui/src/pages''))"
    "sizes_consistent demo_apis"
    using k s by simp_all
  have e: "node_size (structure demo_response) = 164"
    by (simp add: demo_response_def demo_root_def)
  have d: "children_size (children (structure demo_response)) = 164"
    using z c e by (simp add: children_size_def)
  show ?thesis using a b ch e d by simp
qed

text \<open>
  The claim as stated includes the placeholder categories, and fails there: in what the
  scan endpoint returns on a machine without project directories, the node
  \<^verbatim>\<open>Media (Public)\<close> has size 0 and a child of size 100.
\<close>

theorem directory_sizes_counterexample:
  "fst (scan_codebase empty_fs Map.empty) = Inr empty_response
   \<and> \<not> sizes_consistent (structure empty_response)"
proof -
  have "\<not> sizes_consistent (structure empty_response)" by code_simp
  then show ?thesis using empty_fs_scan by simp
qed

section \<open>Properties of the link builder\<close>

lemma import_links_of_mem:
  assumes "node_imports file_node = Some import_list" "imp \<in> set import_list"
    "imp_type imp \<noteq> ''external''"
  shows "\<lparr>source = file_path, target = imp_path imp, link_type = imp_type imp\<rparr>
           \<in> set (import_links_of (file_path, file_node))"
  using assms by (auto simp: import_links_of_def)

text \<open>
  C8. A file of the file map with a frontend extension, whose imports include the
  module \<^verbatim>\<open>brain\<close> as external, and whose text (read again from under the base
  path) contains \<^verbatim>\<open>brain.scan_codebase\<close>, gets one edge of kind
  \<^verbatim>\<open>api-usage\<close> to the codebase API for that call (a second one only if the text
  also names the history call). The edge is among the links, and so is the edge of
  every import of the file that is not external.
\<close>

theorem brain_scan_codebase_edge:
  assumes "(file_path, file_node) \<in> set all_files_map"
    and "endswith file_path ''.tsx'' \<or> endswith file_path ''.ts''
           \<or> endswith file_path ''.jsx'' \<or> endswith file_path ''.js''"
    and "node_imports file_node = Some import_list"
    and "\<lparr>imp_path = ''brain'', imp_type = ''external''\<rparr> \<in> set import_list"
    and "read_text f (os_path_join base_path_app file_path) = Inr content"
    and "contains content ''brain.scan_codebase''"
  shows "brain_links_of f (file_path, file_node)
           = api_usage_link file_path
               # (if contains content ''brain.get_codebase_history''
                  then [api_usage_link file_path] else [])
         \<and> api_usage_link file_path \<in> set (build_links f all_files_map)
         \<and> (\<forall>imp \<in> set import_list. imp_type imp \<noteq> ''external'' \<longrightarrow>
               \<lparr>source = file_path, target = imp_path imp, link_type = imp_type imp\<rparr>
                 \<in> set (build_links f all_files_map))"
proof (intro conjI ballI impI)
  have ne: "import_list \<noteq> []" using assms(4) by auto
  have ex: "list_ex (\<lambda>imp. imp_path imp = ''brain'' \<and> imp_type imp = ''external'') import_list"
    using assms(4) by (auto simp: list_ex_iff intro!: bexI [of _ "\<lparr>imp_path = ''brain'', imp_type = ''external''\<rparr>"])
  show b: "brain_links_of f (file_path, file_node)
           = api_usage_link file_path
               # (if contains content ''brain.get_codebase_history''
                  then [api_usage_link file_path] else [])"
    using assms(2,3,5,6) ne ex by (simp add: brain_links_of_def)
  show "api_usage_link file_path \<in> set (build_links f all_files_map)"
    using assms(1) b by (force simp: build_links_def)
next
  fix imp assume "imp \<in> set import_list" "imp_type imp \<noteq> ''external''"
  then have "\<lparr>source = file_path, target = imp_path imp, link_type = imp_type imp\<rparr>
           \<in> set (import_links_of (file_path, file_node))"
    using assms(3) by (rule import_links_of_mem [rotated])
  then show "\<lparr>source = file_path, target = imp_path imp, link_type = imp_type imp\<rparr>
                 \<in> set (build_links f all_files_map)"
    using assms(1) by (force simp: build_links_def)
qed

text \<open>The page of the small project: one edge for its relative import, one for the call.\<close>

theorem brain_scan_codebase_edge_witness:
  "build_links demo_fs demo_files =
     [\<lparr>source = ''ui/src/pages/App.tsx'', target = ''/ui/src/pages/util'', link_type = ''module''\<rparr>,
      \<lparr>source = ''ui/src/pages/App.tsx'', target = ''src/app/apis/codebase'', link_type = ''api-usage''\<rparr>]
   \<and> api_usage_link ''ui/src/pages/App.tsx'' \<in> set (build_links demo_fs demo_files)"
proof -
  let ?n = "snd (hd demo_files)"
  let ?is = "[\<lparr>imp_path = ''brain'', imp_type = ''external''\<rparr>,
              \<lparr>imp_path = ''/ui/src/pages/util'', imp_type = ''module''\<rparr>]"
  have h1: "(''ui/src/pages/App.tsx'', ?n) \<in> set demo_files" by code_simp
  have h2: "endswith ''ui/src/pages/App.tsx'' ''.tsx'' \<or> endswith ''ui/src/pages/App.tsx'' ''.ts''
           \<or> endswith ''ui/src/pages/App.tsx'' ''.jsx'' \<or> endswith ''ui/src/pages/App.tsx'' ''.js''"
    by code_simp
  have h3: "node_imports ?n = Some ?is" by code_simp
  have h4: "\<lparr>imp_path = ''brain'', imp_type = ''external''\<rparr> \<in> set ?is" by simp
  have h5: "read_text demo_fs (os_path_join base_path_app ''ui/src/pages/App.tsx'') = Inr app_tsx"
    by code_simp
  have h6: "contains app_tsx ''brain.scan_codebase''" by code_simp
  have e: "build_links demo_fs demo_files =
     [\<lparr>source = ''ui/src/pages/App.tsx'', target = ''/ui/src/pages/util'', link_type = ''module''\<rparr>,
      \<lparr>source = ''ui/src/pages/App.tsx'', target = ''src/app/apis/codebase'', link_type = ''api-usage''\<rparr>]"
    by code_simp
  show ?thesis
    using brain_scan_codebase_edge [OF h1 h2 h3 h4 h5 h6] e by blast
qed


text \<open>
  The links of a response are those of the file map that the walk of the categories
  has filled.
\<close>

lemma scan_response_links:
  assumes "scan_response f = Inr response"
  shows "\<exists>categories structure_size all_files_map.
           scan_categories f category_paths initial_categories 0 []
             = Inr (categories, structure_size, all_files_map)
           \<and> links response = build_links f all_files_map"
  using assms by (auto simp: scan_response_def Let_def split: sum.splits if_splits)

lemma demo_fs_links:
  "map_sum str_exn links (scan_response demo_fs) =
     Inr [\<lparr>source = ''ui/src/pages/App.tsx'', target = ''/ui/src/pages/util'',
            link_type = ''module''\<rparr>,
          \<lparr>source = ''src/app/apis/codebase/__init__.py'', target = ''scan_codebase'',
            link_type = ''module''\<rparr>,
          \<lparr>source = ''src/app/apis/codebase/__init__.py'',
            target = ''/src/app/apis/codebase'', link_type = ''from''\<rparr>,
          \<lparr>source = ''ui/src/pages/App.tsx'', target = ''src/app/apis/codebase'',
            link_type = ''api-usage''\<rparr>]"
  by code_simp

section \<open>Properties of the scan endpoint: failures\<close>

lemma scan_categories_names:
  "scan_categories f rest cats ssize m = Inr (cats', ssize', m') \<Longrightarrow>
   map (\<lambda>p. node_name (snd p)) cats' = map (\<lambda>p. node_name (snd p)) cats"
proof (induction f rest cats ssize m rule: scan_categories.induct)
  case (1 f categories structure_size all_files_map)
  then show ?case by simp
next
  case (2 f category path rest categories structure_size all_files_map)
  then show ?case
    by (auto simp: map_entry_names split: if_splits sum.splits option.splits prod.splits)
qed

lemma add_categories_nonempty:
  "acc \<noteq> [] \<or> (\<exists>c \<in> set cs. node_name c \<in> set [''Media (Public)'', ''Internal Storage''])
     \<Longrightarrow> add_categories cs acc \<noteq> []"
  by (induction cs acc rule: add_categories.induct) auto

lemma structure_children_nonempty:
  assumes "scan_categories f category_paths initial_categories 0 [] = Inr (cats, ssize, m)"
  shows "truthy (Some (add_categories (map snd cats) []))"
proof -
  have "map (\<lambda>p. node_name (snd p)) cats = map (\<lambda>p. node_name (snd p)) initial_categories"
    using assms by (rule scan_categories_names)
  then have "''Media (Public)'' \<in> set (map (\<lambda>p. node_name (snd p)) cats)"
    by (simp add: initial_categories_def category_node_def)
  then have "\<exists>c \<in> set (map snd cats). node_name c \<in> set [''Media (Public)'', ''Internal Storage'']"
    by force
  then show ?thesis
    using add_categories_nonempty [of "[]" "map snd cats"] by simp
qed

text \<open>
  The root always has children (the placeholder categories at least), so a scan fails
  only with an exception that the walk of a category has raised.
\<close>

lemma scan_failure_from_walk:
  assumes "scan_response f = Inl e"
  shows "scan_categories f category_paths initial_categories 0 [] = Inl e"
proof (cases "scan_categories f category_paths initial_categories 0 []")
  case (Inl e')
  with assms show ?thesis by (simp add: scan_response_def)
next
  case (Inr r)
  obtain cats ssize m where r: "r = (cats, ssize, m)" by (cases r)
  have "truthy (Some (add_categories (map snd cats) []))"
    using Inr r by (intro structure_children_nonempty) simp
  with assms Inr r show ?thesis
    by (simp add: scan_response_def Let_def)
qed

end
